theory Spec2Isabelle
  imports Complex_Main "HOL-Library.Char_ord" "HOL-Library.List_Lexorder"
begin

section \<open>JavaScript numbers\<close>

text \<open>
  The billing code computes on JavaScript numbers. The model keeps the three special
  values of a double apart from the finite ones, so that every \<open>NaN\<close> and
  \<open>Infinity\<close> branch of the source is a branch here. Finite values are reals, and a
  finite result is exact: rounding and the sign of zero are not modelled. Overflow is:
  the result of an operation on finite numbers is an infinity when it reaches
  \<open>2^1024 - 2^970\<close>, half a unit in the last place above \<open>Number.MAX_VALUE\<close>, where
  rounding to nearest gives \<open>Infinity\<close>.
\<close>

datatype jsnum = NaN | PInf | NInf | Fin real

definition overflow_at :: real where
  "overflow_at = 2 ^ 1024 - 2 ^ 970"

definition overflow :: "real \<Rightarrow> jsnum" where
  "overflow r = (if overflow_at \<le> r then PInf else if r \<le> - overflow_at then NInf else Fin r)"

fun jsadd :: "jsnum \<Rightarrow> jsnum \<Rightarrow> jsnum" where
  "jsadd NaN _ = NaN"
| "jsadd _ NaN = NaN"
| "jsadd PInf NInf = NaN"
| "jsadd NInf PInf = NaN"
| "jsadd PInf _ = PInf"
| "jsadd _ PInf = PInf"
| "jsadd NInf _ = NInf"
| "jsadd _ NInf = NInf"
| "jsadd (Fin a) (Fin b) = overflow (a + b)"

fun jsneg :: "jsnum \<Rightarrow> jsnum" where
  "jsneg NaN = NaN"
| "jsneg PInf = NInf"
| "jsneg NInf = PInf"
| "jsneg (Fin a) = Fin (- a)"

definition jssub :: "jsnum \<Rightarrow> jsnum \<Rightarrow> jsnum" where
  "jssub a b = jsadd a (jsneg b)"

text \<open>\<open>a < b\<close> on numbers: false as soon as one side is \<open>NaN\<close>.\<close>

fun jslt :: "jsnum \<Rightarrow> jsnum \<Rightarrow> bool" where
  "jslt NaN _ = False"
| "jslt _ NaN = False"
| "jslt PInf _ = False"
| "jslt _ NInf = False"
| "jslt NInf _ = True"
| "jslt _ PInf = True"
| "jslt (Fin a) (Fin b) = (a < b)"

definition jsgt :: "jsnum \<Rightarrow> jsnum \<Rightarrow> bool" where
  "jsgt a b = jslt b a"

text \<open>\<open>a >= b\<close>: false when one side is \<open>NaN\<close>, otherwise the negation of \<open>a < b\<close>.\<close>

definition jsge :: "jsnum \<Rightarrow> jsnum \<Rightarrow> bool" where
  "jsge a b = (a \<noteq> NaN \<and> b \<noteq> NaN \<and> \<not> jslt a b)"

text \<open>\<open>Math.max(a, b)\<close>: \<open>NaN\<close> when an argument is \<open>NaN\<close>.\<close>

definition Math_max :: "jsnum \<Rightarrow> jsnum \<Rightarrow> jsnum" where
  "Math_max a b = (if a = NaN \<or> b = NaN then NaN else if jslt a b then b else a)"

text \<open>\<open>Number.isFinite(x)\<close>.\<close>

fun Number_isFinite :: "jsnum \<Rightarrow> bool" where
  "Number_isFinite (Fin _) = True"
| "Number_isFinite _ = False"

text \<open>\<open>x || 0\<close> on a number: \<open>NaN\<close> and zero are falsy, every other number is kept.\<close>

definition or_zero :: "jsnum \<Rightarrow> jsnum" where
  "or_zero x = (if x = NaN \<or> x = Fin 0 then Fin 0 else x)"

section \<open>Billing domain types\<close>

type_synonym UUID = string

datatype InvoiceStatus = Unpaid | Paid | Overdue

text \<open>
  Field names are those of \<open>types/billing.ts\<close>; \<open>id\<close>, \<open>invoice_id\<close> and
  \<open>amount\<close> occur in several interfaces and carry the interface as a prefix here.
  The \<open>amount\<close> fields are typed \<open>number\<close>, so \<open>Number(it.amount)\<close> is the
  identity on them.
\<close>

record InvoiceItem =
  item_id :: UUID
  item_invoice_id :: UUID
  description :: string
  item_amount :: jsnum

record Payment =
  payment_id :: UUID
  payment_invoice_id :: UUID
  payment_amount :: jsnum
  payment_date :: string
  payment_method :: string

text \<open>
  \<open>items\<close> and \<open>payments\<close> are optional in the interface. \<open>status\<close> is
  declared mandatory, but \<open>listInvoices\<close> tests it with \<open>??\<close>, so it is optional
  here as well (\<open>None\<close> is \<open>undefined\<close> or \<open>null\<close>).
\<close>

record Invoice =
  inv_id :: UUID
  booking_id :: UUID
  invoice_number :: string
  total_amount :: jsnum
  due_date :: string
  status :: "InvoiceStatus option"
  items :: "InvoiceItem list option"
  payments :: "Payment list option"

section \<open>Financial model\<close>

record Totals =
  itemsTotal :: jsnum
  total :: jsnum
  paid :: jsnum
  balance :: jsnum

text \<open>\<open>(xs ?? [])\<close>.\<close>

definition or_empty :: "'a list option \<Rightarrow> 'a list" where
  "or_empty xs = (case xs of None \<Rightarrow> [] | Some ys \<Rightarrow> ys)"

definition computeTotals :: "Invoice \<Rightarrow> Totals" where
  "computeTotals invoice =
     (let itemsTotal = foldl (\<lambda>s it. jsadd s (or_zero (item_amount it))) (Fin 0) (or_empty (items invoice));
          paid = foldl (\<lambda>s p. jsadd s (or_zero (payment_amount p))) (Fin 0) (or_empty (payments invoice));
          total = (if Number_isFinite (total_amount invoice) \<and> jsgt (total_amount invoice) (Fin 0)
                   then total_amount invoice else itemsTotal);
          balance = Math_max (Fin 0) (jssub total paid)
      in \<lparr> itemsTotal = itemsTotal, total = total, paid = paid, balance = balance \<rparr>)"

text \<open>
  \<open>deriveStatus\<close> reads the clock. What it reads is a parameter of the model, together
  with the other services of the platform the repository calls: the JSON codec, the
  \<open>Date\<close> constructor and the current year. A time value is the number of milliseconds
  of a \<open>Date\<close>; \<open>None\<close> is an invalid date, whose time value is \<open>NaN\<close>.
\<close>

record Store =
  invoices :: "Invoice list"

record Platform =
  JSON_parse :: "string \<Rightarrow> Store option"
  JSON_stringify :: "Store \<Rightarrow> string"
  getFullYear :: nat
  today_start :: int
  Date_value :: "string \<Rightarrow> int option"
  toISOString :: "int \<Rightarrow> string"

text \<open>
  \<open>getFullYear\<close> is \<open>new Date().getFullYear()\<close>. \<open>today_start\<close> is the time value of
  \<open>new Date(today.toDateString())\<close>, the start of the current day in local time, and
  \<open>Date_value s\<close> the time value of \<open>new Date(s)\<close>. How the platform reads a date text
  and where its day starts are not modelled further. \<open>due < \<dots>\<close> compares time values
  and is false for an invalid date.
\<close>

definition due_before_today :: "Platform \<Rightarrow> Invoice \<Rightarrow> bool" where
  "due_before_today P invoice =
     (case Date_value P (due_date invoice) of None \<Rightarrow> False | Some due \<Rightarrow> due < today_start P)"

definition deriveStatus :: "Platform \<Rightarrow> Invoice \<Rightarrow> InvoiceStatus" where
  "deriveStatus P invoice =
     (let t = computeTotals invoice in
      if jsge (paid t) (total t) \<and> jsgt (total t) (Fin 0) then Paid
      else if jslt (paid t) (total t) \<and> due_before_today P invoice then Overdue
      else Unpaid)"

section \<open>Strings\<close>

definition startsWith :: "string \<Rightarrow> string \<Rightarrow> bool" where
  "startsWith n p = (take (length p) n = p)"

definition is_ws :: "char \<Rightarrow> bool" where
  "is_ws c = (c \<in> set [CHR '' '', CHR 0x09, CHR 0x0A, CHR 0x0B, CHR 0x0C, CHR 0x0D])"

definition is_digit :: "char \<Rightarrow> bool" where
  "is_digit c = (c \<in> set ''0123456789'')"

definition digit_val :: "char \<Rightarrow> nat" where
  "digit_val c = of_char c - 48"

definition digits_val :: "string \<Rightarrow> nat" where
  "digits_val ds = foldl (\<lambda>a c. 10 * a + digit_val c) 0 ds"

text \<open>
  \<open>parseInt(s, 10)\<close>: leading white space is skipped, one sign is read, then the
  longest run of decimal digits; no digit at all gives \<open>NaN\<close> (\<open>None\<close>). White
  space is the ASCII part of the JavaScript set.
\<close>

definition parseInt :: "string \<Rightarrow> int option" where
  "parseInt s =
     (let s1 = dropWhile is_ws s;
          neg = (s1 \<noteq> [] \<and> hd s1 = CHR ''-'');
          s2 = (if s1 \<noteq> [] \<and> (hd s1 = CHR ''-'' \<or> hd s1 = CHR ''+'') then tl s1 else s1);
          ds = takeWhile is_digit s2
      in if ds = [] then None
         else Some (if neg then - int (digits_val ds) else int (digits_val ds)))"

definition digit_char :: "nat \<Rightarrow> char" where
  "digit_char d = char_of (48 + d)"

fun show_nat :: "nat \<Rightarrow> string" where
  "show_nat n = (if n < 10 then [digit_char n] else show_nat (n div 10) @ [digit_char (n mod 10)])"

declare show_nat.simps [simp del]

text \<open>
  \<open>String(n)\<close> on an integer, in plain decimal notation. Integers are exact here: the
  loss of precision of a double beyond \<open>2^53\<close> and the exponent notation of very large
  numbers are not modelled.
\<close>

definition String_of :: "int \<Rightarrow> string" where
  "String_of n = (if n < 0 then CHR ''-'' # show_nat (nat (- n)) else show_nat (nat n))"

definition padStart :: "nat \<Rightarrow> char \<Rightarrow> string \<Rightarrow> string" where
  "padStart n c s = replicate (n - length s) c @ s"

text \<open>
  \<open>toLowerCase\<close> on the letters \<open>A\<close> to \<open>Z\<close>; a \<open>char\<close> is a byte, and the
  case mapping of the characters beyond ASCII is not modelled.
\<close>

definition toLowerCase :: "string \<Rightarrow> string" where
  "toLowerCase s =
     map (\<lambda>c. if CHR ''A'' \<le> c \<and> c \<le> CHR ''Z'' then char_of (of_char c + (32::nat)) else c) s"

fun str_includes :: "string \<Rightarrow> string \<Rightarrow> bool" where
  "str_includes [] q = (q = [])"
| "str_includes (c # s) q = (startsWith (c # s) q \<or> str_includes s q)"

section \<open>Invoice repository\<close>

text \<open>
  The repository keeps the whole collection under one key of \<open>localStorage\<close>. The
  content of that key is the state: \<open>None\<close> when the key is absent. \<open>JSON.parse\<close>
  returns \<open>None\<close> where it throws; a text that parses to something that is not a
  \<open>Store\<close> is outside the declared type of \<open>load\<close> and outside the model.
\<close>

type_synonym Storage = "string option"

text \<open>
  \<open>NotFound\<close> is \<open>new Error('Invoice not found')\<close>; \<open>RangeError\<close> is what
  \<open>toISOString\<close> throws on an invalid date. An asynchronous function that throws returns
  a rejected promise: the value \<open>Inl\<close> of the error.
\<close>

datatype error = NotFound | RangeError

definition empty_store :: Store where
  "empty_store = \<lparr> invoices = [] \<rparr>"

definition load :: "Platform \<Rightarrow> Storage \<Rightarrow> Store" where
  "load P st =
     (case st of
        None \<Rightarrow> empty_store
      | Some raw \<Rightarrow>
          if raw = [] then empty_store
          else (case JSON_parse P raw of None \<Rightarrow> empty_store | Some store \<Rightarrow> store))"

definition save :: "Platform \<Rightarrow> Store \<Rightarrow> Storage" where
  "save P store = Some (JSON_stringify P store)"

text \<open>
  \<open>Math.max(...nums)\<close>. The allocator calls it on a list that is not empty only; the
  first equation is never used.
\<close>

fun Math_max_of :: "int list \<Rightarrow> int" where
  "Math_max_of [] = 0"
| "Math_max_of (n # ns) = fold max ns n"

definition invoice_prefix :: "nat \<Rightarrow> string" where
  "invoice_prefix year = ''INV-'' @ show_nat year @ ''-''"

definition nextInvoiceNumber :: "Platform \<Rightarrow> Invoice list \<Rightarrow> string" where
  "nextInvoiceNumber P existing =
     (let prefix = invoice_prefix (getFullYear P);
          nums = map the (filter (\<lambda>n. n \<noteq> None)
                   (map (\<lambda>n. parseInt (drop (length prefix) n))
                     (filter (\<lambda>n. startsWith n prefix) (map invoice_number existing))));
          next = (if nums \<noteq> [] then Math_max_of nums else 0) + 1
      in prefix @ padStart 4 (CHR ''0'') (String_of next))"

datatype StatusFilter = All | Only InvoiceStatus

record InvoiceFilters =
  filter_status :: "StatusFilter option"
  query :: "string option"
  dueFrom :: "string option"
  dueTo :: "string option"

text \<open>\<open>filters?.field\<close>, and the truthiness test of an optional string.\<close>

definition opt_field :: "('a \<Rightarrow> 'b option) \<Rightarrow> 'a option \<Rightarrow> 'b option" where
  "opt_field f filters = (case filters of None \<Rightarrow> None | Some fl \<Rightarrow> f fl)"

definition truthy_string :: "string option \<Rightarrow> string option" where
  "truthy_string s = (case s of None \<Rightarrow> None | Some q \<Rightarrow> if q = [] then None else Some q)"

text \<open>The last line of \<open>listInvoices\<close> and of \<open>getInvoice\<close>.\<close>

definition refresh :: "Platform \<Rightarrow> Invoice \<Rightarrow> Invoice" where
  "refresh P i = i\<lparr> status := Some (deriveStatus P i), total_amount := total (computeTotals i) \<rparr>"

definition listInvoices :: "Platform \<Rightarrow> Storage \<Rightarrow> InvoiceFilters option \<Rightarrow> Invoice list" where
  "listInvoices P st filters =
     (let store = load P st;
          data0 = invoices store;
          data1 = (case opt_field filter_status filters of
                     Some (Only wanted) \<Rightarrow>
                       filter (\<lambda>i. (case status i of Some s \<Rightarrow> s | None \<Rightarrow> deriveStatus P i) = wanted) data0
                   | _ \<Rightarrow> data0);
          data2 = (case truthy_string (opt_field query filters) of
                     Some q0 \<Rightarrow>
                       (let q = toLowerCase q0 in
                        filter (\<lambda>i. str_includes (toLowerCase (invoice_number i)) q
                                   \<or> str_includes (toLowerCase (booking_id i)) q) data1)
                   | None \<Rightarrow> data1);
          data3 = (case truthy_string (opt_field dueFrom filters) of
                     Some d \<Rightarrow> filter (\<lambda>i. due_date i \<ge> d) data2
                   | None \<Rightarrow> data2);
          data4 = (case truthy_string (opt_field dueTo filters) of
                     Some d \<Rightarrow> filter (\<lambda>i. due_date i \<le> d) data3
                   | None \<Rightarrow> data3)
      in map (refresh P) data4)"

definition getInvoice :: "Platform \<Rightarrow> Storage \<Rightarrow> UUID \<Rightarrow> Invoice option" where
  "getInvoice P st ident =
     (case find (\<lambda>i. inv_id i = ident) (invoices (load P st)) of
        None \<Rightarrow> None
      | Some inv0 \<Rightarrow> Some (refresh P inv0))"

record ItemInput =
  input_description :: string
  input_amount :: jsnum

record CreateInvoiceInput =
  input_booking_id :: UUID
  input_due_date :: string
  input_items :: "ItemInput list"

record RecordPaymentInput =
  pay_amount :: jsnum
  pay_date :: string
  pay_method :: string

text \<open>
  \<open>uuid()\<close> draws random digits. An operation takes the sequence of identifiers its
  calls of \<open>uuid()\<close> return: \<open>uuid k\<close> is the result of call number \<open>k\<close>, from 0.
\<close>

definition createInvoice ::
  "Platform \<Rightarrow> (nat \<Rightarrow> UUID) \<Rightarrow> Storage \<Rightarrow> CreateInvoiceInput \<Rightarrow> Invoice \<times> Storage" where
  "createInvoice P uuid st input =
     (let store = load P st;
          ident = uuid 0;
          invoiceNum = nextInvoiceNumber P (invoices store);
          its = map (\<lambda>(k, it). \<lparr> item_id = uuid (Suc k), item_invoice_id = ident,
                                  description = input_description it, item_amount = input_amount it \<rparr>)
                    (enumerate 0 (input_items input));
          tot = foldl (\<lambda>s it. jsadd s (or_zero (item_amount it))) (Fin 0) its;
          invoice = \<lparr> inv_id = ident, booking_id = input_booking_id input, invoice_number = invoiceNum,
                      total_amount = tot, due_date = input_due_date input, status = Some Unpaid,
                      items = Some its, payments = Some [] \<rparr>
      in (invoice, save P (store\<lparr> invoices := invoices store @ [invoice] \<rparr>)))"

text \<open>
  \<open>find\<close> returns the first invoice with the identifier, and the operation then writes
  to that object, which is an element of \<open>store.invoices\<close>: the first match is replaced
  in the collection that is saved.
\<close>

fun replace_first :: "('a \<Rightarrow> bool) \<Rightarrow> 'a \<Rightarrow> 'a list \<Rightarrow> 'a list" where
  "replace_first p y [] = []"
| "replace_first p y (x # xs) = (if p x then y # xs else x # replace_first p y xs)"

definition addInvoiceItem ::
  "Platform \<Rightarrow> (nat \<Rightarrow> UUID) \<Rightarrow> Storage \<Rightarrow> UUID \<Rightarrow> string \<Rightarrow> jsnum \<Rightarrow> (error + Invoice) \<times> Storage" where
  "addInvoiceItem P uuid st invoiceId descr amount =
     (let store = load P st in
      case find (\<lambda>i. inv_id i = invoiceId) (invoices store) of
        None \<Rightarrow> (Inl NotFound, st)
      | Some inv0 \<Rightarrow>
          (let item = \<lparr> item_id = uuid 0, item_invoice_id = invoiceId,
                       description = descr, item_amount = amount \<rparr>;
               inv1 = inv0\<lparr> items := Some (or_empty (items inv0) @ [item]) \<rparr>;
               inv2 = inv1\<lparr> total_amount := itemsTotal (computeTotals inv1) \<rparr>;
               inv3 = inv2\<lparr> status := Some (deriveStatus P inv2) \<rparr>
           in (Inr inv3,
               save P (store\<lparr> invoices := replace_first (\<lambda>i. inv_id i = invoiceId) inv3 (invoices store) \<rparr>))))"

text \<open>\<open>toISOString\<close> throws a \<open>RangeError\<close> on an invalid date, before anything is saved.\<close>

definition recordPayment ::
  "Platform \<Rightarrow> (nat \<Rightarrow> UUID) \<Rightarrow> Storage \<Rightarrow> UUID \<Rightarrow> RecordPaymentInput \<Rightarrow> (error + Invoice) \<times> Storage" where
  "recordPayment P uuid st invoiceId input =
     (let store = load P st in
      case find (\<lambda>i. inv_id i = invoiceId) (invoices store) of
        None \<Rightarrow> (Inl NotFound, st)
      | Some inv0 \<Rightarrow>
          (case Date_value P (pay_date input) of
             None \<Rightarrow> (Inl RangeError, st)
           | Some t \<Rightarrow>
               (let payment = \<lparr> payment_id = uuid 0, payment_invoice_id = invoiceId,
                                payment_amount = pay_amount input, payment_date = toISOString P t,
                                payment_method = pay_method input \<rparr>;
                    inv1 = inv0\<lparr> payments := Some (or_empty (payments inv0) @ [payment]) \<rparr>;
                    t1 = computeTotals inv1;
                    inv2 = inv1\<lparr> total_amount := total t1 \<rparr>;
                    inv3 = inv2\<lparr> status := Some (if jsge (paid t1) (total t1) then Paid
                                                     else deriveStatus P inv2) \<rparr>
                in (Inr inv3,
                    save P (store\<lparr> invoices := replace_first (\<lambda>i. inv_id i = invoiceId) inv3 (invoices store) \<rparr>)))))"

definition deleteInvoice :: "Platform \<Rightarrow> Storage \<Rightarrow> UUID \<Rightarrow> (error + unit) \<times> Storage" where
  "deleteInvoice P st invoiceId =
     (let store = load P st;
          store' = store\<lparr> invoices := filter (\<lambda>i. inv_id i \<noteq> invoiceId) (invoices store) \<rparr>
      in (Inr (), save P store'))"

section \<open>PDF pagination\<close>

fun jsmul :: "jsnum \<Rightarrow> jsnum \<Rightarrow> jsnum" where
  "jsmul NaN _ = NaN"
| "jsmul _ NaN = NaN"
| "jsmul (Fin a) (Fin b) = overflow (a * b)"
| "jsmul (Fin a) PInf = (if a = 0 then NaN else if 0 < a then PInf else NInf)"
| "jsmul (Fin a) NInf = (if a = 0 then NaN else if 0 < a then NInf else PInf)"
| "jsmul PInf (Fin b) = (if b = 0 then NaN else if 0 < b then PInf else NInf)"
| "jsmul NInf (Fin b) = (if b = 0 then NaN else if 0 < b then NInf else PInf)"
| "jsmul PInf PInf = PInf"
| "jsmul NInf NInf = PInf"
| "jsmul PInf NInf = NInf"
| "jsmul NInf PInf = NInf"

text \<open>Division; a zero divisor is the positive zero (a canvas width is not negative).\<close>

fun jsdiv :: "jsnum \<Rightarrow> jsnum \<Rightarrow> jsnum" where
  "jsdiv NaN _ = NaN"
| "jsdiv _ NaN = NaN"
| "jsdiv (Fin a) (Fin b) =
     (if b \<noteq> 0 then overflow (a / b) else if a = 0 then NaN else if 0 < a then PInf else NInf)"
| "jsdiv (Fin a) PInf = Fin 0"
| "jsdiv (Fin a) NInf = Fin 0"
| "jsdiv PInf (Fin b) = (if 0 \<le> b then PInf else NInf)"
| "jsdiv NInf (Fin b) = (if 0 \<le> b then NInf else PInf)"
| "jsdiv PInf _ = NaN"
| "jsdiv NInf _ = NaN"

text \<open>
  The document of \<open>jsPDF\<close> is its pages in order, the last one current; a page is the
  list of the images placed on it. A new document has one empty page.
\<close>

record Placement =
  img_x :: jsnum
  img_y :: jsnum
  img_width :: jsnum
  img_height :: jsnum

type_synonym PDF = "Placement list list"

definition new_jsPDF :: PDF where
  "new_jsPDF = [[]]"

definition addPage :: "PDF \<Rightarrow> PDF" where
  "addPage pdf = pdf @ [[]]"

definition addImage :: "jsnum \<Rightarrow> jsnum \<Rightarrow> jsnum \<Rightarrow> jsnum \<Rightarrow> PDF \<Rightarrow> PDF" where
  "addImage x y w h pdf =
     butlast pdf @ [last pdf @ [\<lparr> img_x = x, img_y = y, img_width = w, img_height = h \<rparr>]]"

text \<open>
  The \<open>while\<close> loop of \<open>exportElementToPDF\<close>. It does not return when \<open>heightLeft\<close>
  never falls to zero; that is the value \<open>None\<close>.
\<close>

partial_function (option) pages_loop ::
  "jsnum \<Rightarrow> jsnum \<Rightarrow> jsnum \<Rightarrow> jsnum \<Rightarrow> jsnum \<Rightarrow> PDF \<Rightarrow> PDF option" where
  "pages_loop imgWidth imgHeight pageHeight heightLeft position pdf =
     (if jsgt heightLeft (Fin 0) then
        pages_loop imgWidth imgHeight pageHeight (jssub heightLeft pageHeight) (jsadd position pageHeight)
          (addImage (Fin 0) (jsneg (jsadd position pageHeight)) imgWidth imgHeight (addPage pdf))
      else Some pdf)"

declare pages_loop.simps [code]

text \<open>
  \<open>exportElementToPDF\<close> from the captured canvas on: the arguments are the width and
  height of the canvas and of the page. The result is the document that is saved.
\<close>

definition exportElementToPDF :: "jsnum \<Rightarrow> jsnum \<Rightarrow> jsnum \<Rightarrow> jsnum \<Rightarrow> PDF option" where
  "exportElementToPDF canvas_width canvas_height pageWidth pageHeight =
     (let imgWidth = pageWidth;
          imgHeight = jsdiv (jsmul canvas_height imgWidth) canvas_width;
          pdf = addImage (Fin 0) (Fin 0) imgWidth imgHeight new_jsPDF
      in pages_loop imgWidth imgHeight pageHeight (jssub imgHeight pageHeight) (jsneg pageHeight) pdf)"

section \<open>The rules as the specification words them\<close>

text \<open>
  The data model of the specification gives the status of an invoice as: \<open>Paid\<close> iff
  \<open>paid >= total\<close> and \<open>total > 0\<close>; else \<open>Overdue\<close> iff the due date is strictly
  before the current calendar day; else \<open>Unpaid\<close>. This definition follows those words,
  to be compared with \<open>deriveStatus\<close> and with what the repository hands back.
\<close>

definition spec_status :: "Platform \<Rightarrow> Invoice \<Rightarrow> InvoiceStatus" where
  "spec_status P invoice =
     (let t = computeTotals invoice in
      if jsge (paid t) (total t) \<and> jsgt (total t) (Fin 0) then Paid
      else if due_before_today P invoice then Overdue
      else Unpaid)"

text \<open>
  The allocator in the words of the specification: the numeric suffixes of the invoice
  numbers that carry the prefix of the given year.
\<close>

definition current_suffixes :: "nat \<Rightarrow> Invoice list \<Rightarrow> int set" where
  "current_suffixes year existing =
     {n. \<exists>i \<in> set existing. startsWith (invoice_number i) (invoice_prefix year)
           \<and> parseInt (drop (length (invoice_prefix year)) (invoice_number i)) = Some n}"

text \<open>
  For the bounds on sums: the absolute value of a finite number (0 for the others), and
  the numbers that are a result of an operation, below the overflow threshold.
\<close>

definition magnitude :: "jsnum \<Rightarrow> real" where
  "magnitude x = (case x of Fin a \<Rightarrow> \<bar>a\<bar> | _ \<Rightarrow> 0)"

definition in_range :: "jsnum \<Rightarrow> bool" where
  "in_range x = (case x of Fin a \<Rightarrow> \<bar>a\<bar> < overflow_at | _ \<Rightarrow> True)"

section \<open>Sample data\<close>

text \<open>
  A store of two invoices on 15 February 2025: \<open>inv_a\<close> bills 600 + 400, was due on
  31 January and has received nothing, and its stored status is still the \<open>Unpaid\<close> it
  was created with; \<open>inv_b\<close> has no items and no payments.
\<close>

definition inv_a :: Invoice where
  "inv_a = \<lparr> inv_id = ''a'', booking_id = ''BK-1'', invoice_number = ''INV-2025-0001'',
      total_amount = Fin 1000, due_date = ''2025-01-31'', status = Some Unpaid,
      items = Some [\<lparr> item_id = ''i1'', item_invoice_id = ''a'', description = ''Freight'', item_amount = Fin 600 \<rparr>,
                    \<lparr> item_id = ''i2'', item_invoice_id = ''a'', description = ''Toll'', item_amount = Fin 400 \<rparr>],
      payments = Some [] \<rparr>"

definition inv_b :: Invoice where
  "inv_b = \<lparr> inv_id = ''b'', booking_id = ''BK-2'', invoice_number = ''INV-2025-0003'',
      total_amount = Fin 0, due_date = ''2025-01-31'', status = Some Unpaid,
      items = Some [], payments = Some [] \<rparr>"

definition demo_store :: Store where
  "demo_store = \<lparr> invoices = [inv_a, inv_b] \<rparr>"

definition demo_raw :: string where
  "demo_raw = ''{invoices:[a,b]}''"

definition P_demo :: Platform where
  "P_demo = \<lparr>
     JSON_parse = (\<lambda>raw. if raw = demo_raw then Some demo_store
                         else if raw = ''{invoices:[]}'' then Some empty_store else None),
     JSON_stringify = (\<lambda>store. if store = demo_store then demo_raw
                                else if store = empty_store then ''{invoices:[]}'' else ''{invoices:[..]}''),
     getFullYear = 2025,
     today_start = 1739577600000,
     Date_value = (\<lambda>s. if s = ''2025-01-31'' then Some 1738281600000
                        else if s = ''2025-03-31'' then Some 1743379200000 else None),
     toISOString = (\<lambda>t. if t = 1738281600000 then ''2025-01-31T00:00:00.000Z''
                         else ''2025-03-31T00:00:00.000Z'') \<rparr>"

definition uuid_demo :: "nat \<Rightarrow> UUID" where
  "uuid_demo k = ''id-'' @ show_nat k"

text \<open>\<open>inv_a\<close> after a payment of 1500, more than it bills.\<close>

definition inv_overpaid :: Invoice where
  "inv_overpaid = inv_a\<lparr> total_amount := Fin 0,
      payments := Some [\<lparr> payment_id = ''p1'', payment_invoice_id = ''a'', payment_amount = Fin 1500,
                           payment_date = ''2025-01-10T00:00:00.000Z'', payment_method = ''UPI'' \<rparr>] \<rparr>"

definition inv_infinite :: Invoice where
  "inv_infinite = inv_b\<lparr>
      items := Some [\<lparr> item_id = ''i1'', item_invoice_id = ''b'', description = ''Freight'', item_amount = PInf \<rparr>],
      payments := Some [\<lparr> payment_id = ''p1'', payment_invoice_id = ''b'', payment_amount = PInf,
                           payment_date = ''2025-01-10T00:00:00.000Z'', payment_method = ''NEFT'' \<rparr>] \<rparr>"

text \<open>Two items of \<open>1e308\<close> each.\<close>

definition inv_huge :: Invoice where
  "inv_huge = inv_b\<lparr>
      items := Some [\<lparr> item_id = ''i1'', item_invoice_id = ''b'', description = ''Freight'', item_amount = Fin (10 ^ 308) \<rparr>,
                     \<lparr> item_id = ''i2'', item_invoice_id = ''b'', description = ''Toll'', item_amount = Fin (10 ^ 308) \<rparr>] \<rparr>"

definition inv_nan :: Invoice where
  "inv_nan = inv_b\<lparr> total_amount := NaN,
      items := Some [\<lparr> item_id = ''i1'', item_invoice_id = ''b'', description = ''Freight'', item_amount = Fin 600 \<rparr>,
                     \<lparr> item_id = ''i2'', item_invoice_id = ''b'', description = ''Toll'', item_amount = NaN \<rparr>],
      payments := Some [\<lparr> payment_id = ''p1'', payment_invoice_id = ''b'', payment_amount = NaN,
                           payment_date = ''2025-01-10T00:00:00.000Z'', payment_method = ''NEFT'' \<rparr>,
                        \<lparr> payment_id = ''p2'', payment_invoice_id = ''b'', payment_amount = Fin 100,
                           payment_date = ''2025-01-11T00:00:00.000Z'', payment_method = ''COD'' \<rparr>] \<rparr>"

definition pay_demo :: RecordPaymentInput where
  "pay_demo = \<lparr> pay_amount = Fin 400, pay_date = ''2025-01-31'', pay_method = ''UPI'' \<rparr>"

definition input_demo :: CreateInvoiceInput where
  "input_demo = \<lparr> input_booking_id = ''BK-9'', input_due_date = ''2025-03-31'',
      input_items = [\<lparr> input_description = ''Freight'', input_amount = Fin 250 \<rparr>] \<rparr>"

definition only_status :: "InvoiceStatus \<Rightarrow> InvoiceFilters option" where
  "only_status s = Some \<lparr> filter_status = Some (Only s), query = None, dueFrom = None, dueTo = None \<rparr>"

definition input_late :: CreateInvoiceInput where
  "input_late = \<lparr> input_booking_id = ''BK-9'', input_due_date = ''2025-01-31'',
      input_items = [\<lparr> input_description = ''Freight'', input_amount = Fin 250 \<rparr>] \<rparr>"

text \<open>\<open>inv_b\<close> as \<open>recordPayment\<close> hands it back for the payment \<open>pay_demo\<close>.\<close>

definition inv_b_paid :: Invoice where
  "inv_b_paid = inv_b\<lparr> status := Some Paid,
      payments := Some [\<lparr> payment_id = uuid_demo 0, payment_invoice_id = ''b'', payment_amount = Fin 400,
                           payment_date = ''2025-01-31T00:00:00.000Z'', payment_method = ''UPI'' \<rparr>] \<rparr>"

text \<open>An invoice of the year before.\<close>

definition inv_2024 :: Invoice where
  "inv_2024 = inv_a\<lparr> inv_id := ''c'', invoice_number := ''INV-2024-0042'' \<rparr>"

section \<open>Properties of the number operations\<close>

lemma overflow_at_numeral [code]:
  "overflow_at =
     179769313486231580793728971405303415079934132710037826936173778980444968292764750946649017977587207096330286416692887910946555547851940402630657488671505820681908902000708383676273854845817711531764475730270069855571366959622842914819860834936475292719074168444365510704342711559699508093042880177904174497792"
  by (simp add: overflow_at_def)

lemma overflow_at_half: "2 ^ 1023 < overflow_at"
  by (simp add: overflow_at_numeral)

lemma overflow_in_range: "\<bar>r\<bar> < overflow_at \<Longrightarrow> overflow r = Fin r"
  by (auto simp: overflow_def)

lemma in_range_simps:
  "in_range NaN" "in_range PInf" "in_range NInf" "in_range (Fin a) = (\<bar>a\<bar> < overflow_at)"
  by (simp_all add: in_range_def)

lemma in_range_overflow: "in_range (overflow r)"
  by (auto simp: overflow_def in_range_simps)

lemma in_range_jsadd: "in_range (jsadd a b)"
  by (cases a; cases b) (simp_all add: in_range_simps in_range_overflow)

lemma in_range_zero: "in_range (Fin 0)"
  using overflow_at_half by (simp add: in_range_simps)

lemma jsadd_zero_right: "in_range s \<Longrightarrow> jsadd s (Fin 0) = s"
  by (cases s) (simp_all add: in_range_simps overflow_in_range)

lemma magnitude_nonneg: "0 \<le> magnitude x"
  by (cases x) (simp_all add: magnitude_def)

lemma sum_magnitude_nonneg: "0 \<le> sum_list (map (\<lambda>x. magnitude (f x)) xs)"
  by (induction xs) (simp_all add: magnitude_nonneg)

lemma Math_max_zero_not_negative: "\<not> jslt (Math_max (Fin 0) x) (Fin 0)"
  by (cases x) (simp_all add: Math_max_def)

lemma Math_max_zero_cases: "Math_max (Fin 0) x = NaN \<or> jsge (Math_max (Fin 0) x) (Fin 0)"
  by (cases x) (simp_all add: Math_max_def jsge_def)

lemma or_zero_not_NaN: "x \<noteq> NaN \<Longrightarrow> or_zero x = x"
  by (simp add: or_zero_def)

lemma foldl_or_zero_plain:
  "NaN \<notin> set (map f xs) \<Longrightarrow>
   foldl (\<lambda>s x. jsadd s (or_zero (f x))) a xs = foldl jsadd a (map f xs)"
  by (induction xs arbitrary: a) (auto simp add: or_zero_not_NaN)

lemma foldl_drop_NaN:
  "in_range a \<Longrightarrow>
   foldl (\<lambda>s x. jsadd s (or_zero (f x))) a (filter (\<lambda>x. f x \<noteq> NaN) xs)
   = foldl (\<lambda>s x. jsadd s (or_zero (f x))) a xs"
proof (induction xs arbitrary: a)
  case Nil
  show ?case by simp
next
  case (Cons x xs)
  show ?case
  proof (cases "f x = NaN")
    case True
    with Cons.prems have "jsadd a (or_zero (f x)) = a"
      by (simp add: or_zero_def jsadd_zero_right)
    with True Cons.IH [OF Cons.prems] show ?thesis by simp
  next
    case False
    have "in_range (jsadd a (or_zero (f x)))" by (rule in_range_jsadd)
    from Cons.IH [OF this] False show ?thesis by simp
  qed
qed

section \<open>Totals\<close>

lemma computeTotals_fields:
  "itemsTotal (computeTotals i) =
     foldl (\<lambda>s it. jsadd s (or_zero (item_amount it))) (Fin 0) (or_empty (items i))"
  "paid (computeTotals i) =
     foldl (\<lambda>s p. jsadd s (or_zero (payment_amount p))) (Fin 0) (or_empty (payments i))"
  "total (computeTotals i) =
     (if Number_isFinite (total_amount i) \<and> jsgt (total_amount i) (Fin 0)
      then total_amount i else itemsTotal (computeTotals i))"
  "balance (computeTotals i) =
     Math_max (Fin 0) (jssub (total (computeTotals i)) (paid (computeTotals i)))"
  by (simp_all add: computeTotals_def Let_def)

text \<open>
  C1. For every invoice, \<open>computeTotals\<close> returns as \<open>total\<close> the field
  \<open>total_amount\<close> when that is a finite number strictly greater than 0, and the sum of
  the item amounts (\<open>itemsTotal\<close>) otherwise; \<open>itemsTotal\<close> is the plain sum of
  \<open>items[].amount\<close> when no amount is \<open>NaN\<close>. \<open>balance\<close> is
  \<open>Math.max(0, total - paid)\<close>; it is never below zero, also when \<open>paid\<close> exceeds
  \<open>total\<close>: it is at least zero, or \<open>NaN\<close> when \<open>total - paid\<close> is.
\<close>

theorem computeTotals_total_balance:
  "total (computeTotals invoice) =
     (if Number_isFinite (total_amount invoice) \<and> jsgt (total_amount invoice) (Fin 0)
      then total_amount invoice else itemsTotal (computeTotals invoice))
   \<and> (NaN \<notin> set (map item_amount (or_empty (items invoice))) \<longrightarrow>
        itemsTotal (computeTotals invoice) = foldl jsadd (Fin 0) (map item_amount (or_empty (items invoice))))
   \<and> balance (computeTotals invoice) =
        Math_max (Fin 0) (jssub (total (computeTotals invoice)) (paid (computeTotals invoice)))
   \<and> \<not> jslt (balance (computeTotals invoice)) (Fin 0)
   \<and> (balance (computeTotals invoice) = NaN \<or> jsge (balance (computeTotals invoice)) (Fin 0))"
  using foldl_or_zero_plain [where xs = "or_empty (items invoice)" and f = item_amount and a = "Fin 0"]
  by (simp add: computeTotals_fields Math_max_zero_not_negative Math_max_zero_cases)

theorem computeTotals_total_balance_witness:
  "NaN \<notin> set (map item_amount (or_empty (items inv_overpaid)))
   \<and> total (computeTotals inv_overpaid) = Fin 1000
   \<and> itemsTotal (computeTotals inv_overpaid) = foldl jsadd (Fin 0) (map item_amount (or_empty (items inv_overpaid)))
   \<and> paid (computeTotals inv_overpaid) = Fin 1500
   \<and> balance (computeTotals inv_overpaid) = Fin 0
   \<and> \<not> jslt (balance (computeTotals inv_overpaid)) (Fin 0)"
  using computeTotals_total_balance [of inv_overpaid]
  by (simp add: inv_overpaid_def inv_a_def computeTotals_fields or_empty_def or_zero_def jssub_def
      jsgt_def Math_max_def overflow_def overflow_at_numeral)

section \<open>PDF pagination\<close>

text \<open>
  C3. A captured bitmap whose scaled height is 3000 units, on pages 1000 units high:
  \<open>exportElementToPDF\<close> emits 3 pages, and the claim is that page \<open>k\<close> carries the
  image at vertical offset \<open>-k * 1000\<close>, that is 0, -1000 and -2000. The code places it
  at 0, 0 and -1000: \<open>position\<close> starts the loop at \<open>-pageHeight\<close>, is raised to 0
  before the second placement and is negated, so the second page repeats the first and
  the last third of the image is on no page.
\<close>

theorem exportElementToPDF_3000_by_1000:
  "exportElementToPDF (Fin 1000) (Fin 3000) (Fin 1000) (Fin 1000) =
     Some [[\<lparr> img_x = Fin 0, img_y = Fin 0, img_width = Fin 1000, img_height = Fin 3000 \<rparr>],
           [\<lparr> img_x = Fin 0, img_y = Fin 0, img_width = Fin 1000, img_height = Fin 3000 \<rparr>],
           [\<lparr> img_x = Fin 0, img_y = Fin (- 1000), img_width = Fin 1000, img_height = Fin 3000 \<rparr>]]
   \<and> map (map img_y) (the (exportElementToPDF (Fin 1000) (Fin 3000) (Fin 1000) (Fin 1000)))
       \<noteq> [[Fin 0], [Fin (- 1000)], [Fin (- 2000)]]"
  by (simp add: exportElementToPDF_def pages_loop.simps jssub_def jsgt_def addImage_def addPage_def
      new_jsPDF_def Let_def overflow_def overflow_at_numeral)

section \<open>Amounts that are not numbers\<close>

lemma or_zero_finite:
  "x \<noteq> PInf \<Longrightarrow> x \<noteq> NInf \<Longrightarrow> \<exists>b. or_zero x = Fin b \<and> \<bar>b\<bar> \<le> magnitude x"
  by (cases x) (simp_all add: or_zero_def magnitude_def)

lemma foldl_or_zero_bounded:
  "PInf \<notin> set (map f xs) \<Longrightarrow> NInf \<notin> set (map f xs) \<Longrightarrow>
   \<bar>a\<bar> + sum_list (map (\<lambda>x. magnitude (f x)) xs) < overflow_at \<Longrightarrow>
   \<exists>r. foldl (\<lambda>s x. jsadd s (or_zero (f x))) (Fin a) xs = Fin r
      \<and> \<bar>r\<bar> \<le> \<bar>a\<bar> + sum_list (map (\<lambda>x. magnitude (f x)) xs)"
proof (induction xs arbitrary: a)
  case Nil
  then show ?case by simp
next
  case (Cons x xs)
  from Cons.prems(1,2) have "f x \<noteq> PInf" and "f x \<noteq> NInf" by auto
  then obtain b where b: "or_zero (f x) = Fin b" "\<bar>b\<bar> \<le> magnitude (f x)"
    using or_zero_finite by blast
  have rest: "0 \<le> sum_list (map (\<lambda>x. magnitude (f x)) xs)"
    by (rule sum_magnitude_nonneg)
  from Cons.prems(3)
  have "\<bar>a\<bar> + (magnitude (f x) + sum_list (map (\<lambda>x. magnitude (f x)) xs)) < overflow_at"
    by simp
  moreover have "\<bar>a + b\<bar> \<le> \<bar>a\<bar> + \<bar>b\<bar>"
    by (rule abs_triangle_ineq)
  ultimately have bound: "\<bar>a + b\<bar> + sum_list (map (\<lambda>x. magnitude (f x)) xs) < overflow_at"
    using b(2) by linarith
  with rest have "\<bar>a + b\<bar> < overflow_at" by simp
  then have step: "jsadd (Fin a) (or_zero (f x)) = Fin (a + b)"
    by (simp add: b(1) overflow_in_range)
  from Cons.prems(1,2) have "PInf \<notin> set (map f xs)" and "NInf \<notin> set (map f xs)" by auto
  from Cons.IH [OF this bound] obtain r where
    r: "foldl (\<lambda>s x. jsadd s (or_zero (f x))) (Fin (a + b)) xs = Fin r"
       "\<bar>r\<bar> \<le> \<bar>a + b\<bar> + sum_list (map (\<lambda>x. magnitude (f x)) xs)"
    by blast
  have "sum_list (map (\<lambda>x. magnitude (f x)) (x # xs)) = magnitude (f x) + sum_list (map (\<lambda>x. magnitude (f x)) xs)"
    by simp
  with r(2) b(2) \<open>\<bar>a + b\<bar> \<le> \<bar>a\<bar> + \<bar>b\<bar>\<close>
  have "\<bar>r\<bar> \<le> \<bar>a\<bar> + sum_list (map (\<lambda>x. magnitude (f x)) (x # xs))"
    by linarith
  with r(1) step show ?case by simp
qed

lemma Math_max_zero_finite:
  "\<bar>a - b\<bar> < overflow_at \<Longrightarrow> Number_isFinite (Math_max (Fin 0) (jssub (Fin a) (Fin b)))"
  by (simp add: Math_max_def jssub_def overflow_in_range)

lemma computeTotals_finite:
  assumes "PInf \<notin> set (map item_amount (or_empty (items invoice)))"
      and "NInf \<notin> set (map item_amount (or_empty (items invoice)))"
      and "PInf \<notin> set (map payment_amount (or_empty (payments invoice)))"
      and "NInf \<notin> set (map payment_amount (or_empty (payments invoice)))"
      and "magnitude (total_amount invoice)
           + sum_list (map (\<lambda>it. magnitude (item_amount it)) (or_empty (items invoice)))
           + sum_list (map (\<lambda>p. magnitude (payment_amount p)) (or_empty (payments invoice))) \<le> 2 ^ 1023"
  shows "Number_isFinite (itemsTotal (computeTotals invoice))
       \<and> Number_isFinite (paid (computeTotals invoice))
       \<and> Number_isFinite (total (computeTotals invoice))
       \<and> Number_isFinite (balance (computeTotals invoice))"
proof -
  let ?I = "sum_list (map (\<lambda>it. magnitude (item_amount it)) (or_empty (items invoice)))"
  let ?Q = "sum_list (map (\<lambda>p. magnitude (payment_amount p)) (or_empty (payments invoice)))"
  let ?T = "magnitude (total_amount invoice)"
  have nn: "0 \<le> ?I" "0 \<le> ?Q" "0 \<le> ?T"
    by (simp_all add: sum_magnitude_nonneg magnitude_nonneg)
  from assms(5) overflow_at_half have all: "?T + ?I + ?Q < overflow_at"
    by simp
  with nn have "\<bar>0\<bar> + ?I < overflow_at" and "\<bar>0\<bar> + ?Q < overflow_at"
    by simp_all
  then obtain r q where
    r: "itemsTotal (computeTotals invoice) = Fin r" "\<bar>r\<bar> \<le> ?I" and
    q: "paid (computeTotals invoice) = Fin q" "\<bar>q\<bar> \<le> ?Q"
    using foldl_or_zero_bounded [OF assms(1,2), of 0] foldl_or_zero_bounded [OF assms(3,4), of 0]
    by (auto simp: computeTotals_fields)
  have "\<exists>t. total (computeTotals invoice) = Fin t \<and> \<bar>t\<bar> \<le> ?T + ?I"
  proof (cases "Number_isFinite (total_amount invoice) \<and> jsgt (total_amount invoice) (Fin 0)")
    case True
    then obtain t where ta: "total_amount invoice = Fin t"
      by (cases "total_amount invoice") simp_all
    from True have "total (computeTotals invoice) = total_amount invoice"
      by (auto simp: computeTotals_fields(3))
    moreover from nn(1) have "\<bar>t\<bar> \<le> ?T + ?I"
      by (simp add: ta magnitude_def)
    ultimately show ?thesis
      by (simp add: ta)
  next
    case False
    then have "total (computeTotals invoice) = itemsTotal (computeTotals invoice)"
      by (auto simp: computeTotals_fields(3))
    moreover from r(2) nn(3) have "\<bar>r\<bar> \<le> ?T + ?I"
      by linarith
    ultimately show ?thesis
      by (simp add: r(1))
  qed
  then obtain t where t: "total (computeTotals invoice) = Fin t" "\<bar>t\<bar> \<le> ?T + ?I"
    by blast
  have "\<bar>t - q\<bar> \<le> \<bar>t\<bar> + \<bar>q\<bar>"
    by (rule abs_triangle_ineq4)
  with t(2) q(2) all have "\<bar>t - q\<bar> < overflow_at"
    by linarith
  then have "Number_isFinite (balance (computeTotals invoice))"
    by (simp add: computeTotals_fields(4) t(1) q(1) Math_max_zero_finite)
  with r(1) q(1) t(1) show ?thesis
    by simp
qed

lemma itemsTotal_drop_NaN:
  "itemsTotal (computeTotals (invoice\<lparr> items := Some (filter (\<lambda>it. item_amount it \<noteq> NaN) (or_empty (items invoice))) \<rparr>))
   = itemsTotal (computeTotals invoice)"
  by (simp add: computeTotals_fields(1) or_empty_def foldl_drop_NaN in_range_zero split: option.splits)

lemma paid_drop_NaN:
  "paid (computeTotals (invoice\<lparr> payments := Some (filter (\<lambda>p. payment_amount p \<noteq> NaN) (or_empty (payments invoice))) \<rparr>))
   = paid (computeTotals invoice)"
  by (simp add: computeTotals_fields(2) or_empty_def foldl_drop_NaN in_range_zero split: option.splits)

text \<open>
  C10. The claim is that \<open>computeTotals\<close> returns finite numbers for every invoice.
  \<open>Number(x) || 0\<close> replaces \<open>NaN\<close> only: an infinite amount is truthy and stays
  in the sum. With one infinite item and one infinite payment the sums are infinite and
  the balance is \<open>NaN\<close>. Finite amounts are enough: two items of \<open>1e308\<close> add up to
  \<open>Infinity\<close>, and so do the total and the balance.
\<close>

theorem computeTotals_infinite_amount:
  "itemsTotal (computeTotals inv_infinite) = PInf
   \<and> paid (computeTotals inv_infinite) = PInf
   \<and> balance (computeTotals inv_infinite) = NaN
   \<and> \<not> Number_isFinite (itemsTotal (computeTotals inv_infinite))
   \<and> \<not> Number_isFinite (paid (computeTotals inv_infinite))
   \<and> \<not> Number_isFinite (balance (computeTotals inv_infinite))
   \<and> itemsTotal (computeTotals inv_huge) = PInf
   \<and> balance (computeTotals inv_huge) = PInf
   \<and> \<not> Number_isFinite (itemsTotal (computeTotals inv_huge))
   \<and> \<not> Number_isFinite (balance (computeTotals inv_huge))"
  by (simp add: inv_infinite_def inv_huge_def inv_b_def computeTotals_fields or_empty_def or_zero_def
      jssub_def jsgt_def Math_max_def overflow_def overflow_at_numeral)

text \<open>
  C10, amended. \<open>computeTotals\<close> is a total function. For every invoice a \<open>NaN\<close>
  amount contributes 0: leaving those items or payments out does not change the sum. A
  \<open>total_amount\<close> that is not finite is ignored in favour of \<open>itemsTotal\<close>.
  \<open>itemsTotal\<close>, \<open>paid\<close> and \<open>balance\<close> are finite when no item or payment amount
  is infinite and the absolute values of \<open>total_amount\<close> (when it is finite), of the
  item amounts and of the payment amounts add up to \<open>2^1023\<close> at most. That bound is
  half the range of a double; the room it leaves is for the rounding of the partial
  sums, which is not modelled.
\<close>

theorem computeTotals_finite_or_NaN_amounts:
  "(PInf \<notin> set (map item_amount (or_empty (items invoice)))
      \<and> NInf \<notin> set (map item_amount (or_empty (items invoice)))
      \<and> PInf \<notin> set (map payment_amount (or_empty (payments invoice)))
      \<and> NInf \<notin> set (map payment_amount (or_empty (payments invoice)))
      \<and> magnitude (total_amount invoice)
         + sum_list (map (\<lambda>it. magnitude (item_amount it)) (or_empty (items invoice)))
         + sum_list (map (\<lambda>p. magnitude (payment_amount p)) (or_empty (payments invoice))) \<le> 2 ^ 1023
    \<longrightarrow> Number_isFinite (itemsTotal (computeTotals invoice))
      \<and> Number_isFinite (paid (computeTotals invoice))
      \<and> Number_isFinite (balance (computeTotals invoice)))
   \<and> itemsTotal (computeTotals invoice) =
       itemsTotal (computeTotals (invoice\<lparr> items :=
         Some (filter (\<lambda>it. item_amount it \<noteq> NaN) (or_empty (items invoice))) \<rparr>))
   \<and> paid (computeTotals invoice) =
       paid (computeTotals (invoice\<lparr> payments :=
         Some (filter (\<lambda>p. payment_amount p \<noteq> NaN) (or_empty (payments invoice))) \<rparr>))
   \<and> (\<not> Number_isFinite (total_amount invoice) \<longrightarrow>
        total (computeTotals invoice) = itemsTotal (computeTotals invoice))"
  using computeTotals_finite [of invoice]
  by (simp add: itemsTotal_drop_NaN paid_drop_NaN computeTotals_fields(3))

theorem computeTotals_finite_or_NaN_amounts_witness:
  "PInf \<notin> set (map item_amount (or_empty (items inv_nan)))
   \<and> NInf \<notin> set (map item_amount (or_empty (items inv_nan)))
   \<and> PInf \<notin> set (map payment_amount (or_empty (payments inv_nan)))
   \<and> NInf \<notin> set (map payment_amount (or_empty (payments inv_nan)))
   \<and> magnitude (total_amount inv_nan)
      + sum_list (map (\<lambda>it. magnitude (item_amount it)) (or_empty (items inv_nan)))
      + sum_list (map (\<lambda>p. magnitude (payment_amount p)) (or_empty (payments inv_nan))) \<le> 2 ^ 1023
   \<and> \<not> Number_isFinite (total_amount inv_nan)
   \<and> itemsTotal (computeTotals inv_nan) = Fin 600
   \<and> paid (computeTotals inv_nan) = Fin 100
   \<and> total (computeTotals inv_nan) = Fin 600
   \<and> balance (computeTotals inv_nan) = Fin 500
   \<and> Number_isFinite (itemsTotal (computeTotals inv_nan))
   \<and> Number_isFinite (paid (computeTotals inv_nan))
   \<and> Number_isFinite (balance (computeTotals inv_nan))"
proof -
  have no_inf:
    "PInf \<notin> set (map item_amount (or_empty (items inv_nan)))"
    "NInf \<notin> set (map item_amount (or_empty (items inv_nan)))"
    "PInf \<notin> set (map payment_amount (or_empty (payments inv_nan)))"
    "NInf \<notin> set (map payment_amount (or_empty (payments inv_nan)))"
    by (simp_all add: inv_nan_def inv_b_def or_empty_def)
  have "magnitude (total_amount inv_nan)
      + sum_list (map (\<lambda>it. magnitude (item_amount it)) (or_empty (items inv_nan)))
      + sum_list (map (\<lambda>p. magnitude (payment_amount p)) (or_empty (payments inv_nan))) = 700"
    by (simp add: inv_nan_def inv_b_def or_empty_def magnitude_def)
  then have small: "magnitude (total_amount inv_nan)
      + sum_list (map (\<lambda>it. magnitude (item_amount it)) (or_empty (items inv_nan)))
      + sum_list (map (\<lambda>p. magnitude (payment_amount p)) (or_empty (payments inv_nan))) \<le> 2 ^ 1023"
    by simp
  have vals:
    "\<not> Number_isFinite (total_amount inv_nan)"
    "itemsTotal (computeTotals inv_nan) = Fin 600"
    "paid (computeTotals inv_nan) = Fin 100"
    "total (computeTotals inv_nan) = Fin 600"
    "balance (computeTotals inv_nan) = Fin 500"
    by code_simp+
  from computeTotals_finite_or_NaN_amounts [of inv_nan] no_inf small
  have "Number_isFinite (itemsTotal (computeTotals inv_nan))
      \<and> Number_isFinite (paid (computeTotals inv_nan))
      \<and> Number_isFinite (balance (computeTotals inv_nan))"
    by blast
  with no_inf small vals show ?thesis
    by blast
qed

section \<open>Purity\<close>

lemma computeTotals_cong:
  "total_amount i = total_amount j \<Longrightarrow> items i = items j \<Longrightarrow> payments i = payments j \<Longrightarrow>
   computeTotals i = computeTotals j"
  by (simp add: computeTotals_def Let_def)

text \<open>
  C6. The claim is that \<open>deriveStatus\<close> is a function of its invoice alone.
  It reads the clock: the unchanged invoice \<open>inv_a\<close>, due on 31 January, is
  \<open>Unpaid\<close> when the call is made on 15 January and \<open>Overdue\<close> when it is made on
  15 February.
\<close>

theorem deriveStatus_reads_clock:
  "deriveStatus (P_demo\<lparr> today_start := 1736899200000 \<rparr>) inv_a = Unpaid
   \<and> deriveStatus P_demo inv_a = Overdue"
  by (simp add: deriveStatus_def due_before_today_def P_demo_def inv_a_def computeTotals_fields
      or_empty_def or_zero_def jsge_def jsgt_def Let_def overflow_def overflow_at_numeral)

text \<open>
  C6, amended. \<open>computeTotals\<close> is a function of the invoice alone, and of its
  \<open>total_amount\<close>, \<open>items\<close> and \<open>payments\<close> only. \<open>deriveStatus\<close> is a function
  of the invoice and of the current day: two calls on an unchanged invoice give the same
  status when the start of the current day and the reading of the due date are the same
  at both. Neither writes anything.
\<close>

theorem totals_and_status_determined:
  "(total_amount i = total_amount j \<and> items i = items j \<and> payments i = payments j
      \<longrightarrow> computeTotals i = computeTotals j)
   \<and> (today_start P = today_start P' \<and> Date_value P (due_date i) = Date_value P' (due_date i)
      \<longrightarrow> deriveStatus P i = deriveStatus P' i)"
proof (intro conjI impI)
  assume same: "total_amount i = total_amount j \<and> items i = items j \<and> payments i = payments j"
  show "computeTotals i = computeTotals j"
    by (rule computeTotals_cong) (simp_all add: same)
next
  assume "today_start P = today_start P' \<and> Date_value P (due_date i) = Date_value P' (due_date i)"
  then have "due_before_today P i = due_before_today P' i"
    by (simp add: due_before_today_def split: option.splits)
  then show "deriveStatus P i = deriveStatus P' i"
    by (simp add: deriveStatus_def Let_def cong: if_cong)
qed

theorem totals_and_status_determined_witness:
  "total_amount inv_a = total_amount (inv_a\<lparr> status := Some Paid \<rparr>)
   \<and> items inv_a = items (inv_a\<lparr> status := Some Paid \<rparr>)
   \<and> payments inv_a = payments (inv_a\<lparr> status := Some Paid \<rparr>)
   \<and> today_start P_demo = today_start (P_demo\<lparr> getFullYear := 2026 \<rparr>)
   \<and> Date_value P_demo (due_date inv_a) = Date_value (P_demo\<lparr> getFullYear := 2026 \<rparr>) (due_date inv_a)
   \<and> computeTotals inv_a = computeTotals (inv_a\<lparr> status := Some Paid \<rparr>)
   \<and> deriveStatus P_demo inv_a = deriveStatus (P_demo\<lparr> getFullYear := 2026 \<rparr>) inv_a
   \<and> deriveStatus P_demo inv_a = Overdue"
  using totals_and_status_determined [of inv_a "inv_a\<lparr> status := Some Paid \<rparr>" P_demo "P_demo\<lparr> getFullYear := 2026 \<rparr>"]
  by (simp add: deriveStatus_def due_before_today_def P_demo_def inv_a_def computeTotals_fields
      or_empty_def or_zero_def jsge_def jsgt_def Let_def overflow_def overflow_at_numeral)

section \<open>Storage and failures\<close>

lemma load_missing: "load P None = empty_store"
  by (simp add: load_def)

lemma load_unparsable: "JSON_parse P raw = None \<Longrightarrow> load P (Some raw) = empty_store"
  by (simp add: load_def)

lemma find_absent:
  "invoiceId \<notin> set (map inv_id xs) \<Longrightarrow> find (\<lambda>i. inv_id i = invoiceId) xs = None"
  by (induction xs) auto

lemma addInvoiceItem_absent:
  "invoiceId \<notin> set (map inv_id (invoices (load P st))) \<Longrightarrow>
   addInvoiceItem P uuid st invoiceId descr amount = (Inl NotFound, st)"
  by (simp add: addInvoiceItem_def find_absent)

lemma recordPayment_absent:
  "invoiceId \<notin> set (map inv_id (invoices (load P st))) \<Longrightarrow>
   recordPayment P uuid st invoiceId input = (Inl NotFound, st)"
  by (simp add: recordPayment_def find_absent)

lemma addInvoiceItem_failure_keeps:
  "fst (addInvoiceItem P uuid st invoiceId descr amount) = Inl e \<Longrightarrow>
   snd (addInvoiceItem P uuid st invoiceId descr amount) = st"
  by (simp add: addInvoiceItem_def Let_def split: option.splits)

lemma recordPayment_failure_keeps:
  "fst (recordPayment P uuid st invoiceId input) = Inl e \<Longrightarrow>
   snd (recordPayment P uuid st invoiceId input) = st"
  by (simp add: recordPayment_def Let_def split: option.splits)

text \<open>
  C7. For every invoice id that is not in the store, \<open>addInvoiceItem\<close> and
  \<open>recordPayment\<close> fail with \<open>NotFound\<close> and the content of the storage key is what it
  was: nothing is saved. More generally a call of either that fails leaves the storage
  as it was.
\<close>

theorem missing_invoice_NotFound:
  "(invoiceId \<notin> set (map inv_id (invoices (load P st))) \<longrightarrow>
      addInvoiceItem P uuid st invoiceId descr amount = (Inl NotFound, st)
      \<and> recordPayment P uuid st invoiceId input = (Inl NotFound, st))
   \<and> (fst (addInvoiceItem P uuid st invoiceId descr amount) = Inl e \<longrightarrow>
        snd (addInvoiceItem P uuid st invoiceId descr amount) = st)
   \<and> (fst (recordPayment P uuid st invoiceId input) = Inl e \<longrightarrow>
        snd (recordPayment P uuid st invoiceId input) = st)"
  by (simp add: addInvoiceItem_absent recordPayment_absent addInvoiceItem_failure_keeps
      recordPayment_failure_keeps del: set_map)

lemma load_demo: "load P_demo (Some demo_raw) = demo_store"
  by (simp add: load_def P_demo_def demo_raw_def)

theorem missing_invoice_NotFound_witness:
  "''zz'' \<notin> set (map inv_id (invoices (load P_demo (Some demo_raw))))
   \<and> addInvoiceItem P_demo uuid_demo (Some demo_raw) ''zz'' ''Toll'' (Fin 50) = (Inl NotFound, Some demo_raw)
   \<and> recordPayment P_demo uuid_demo (Some demo_raw) ''zz'' pay_demo = (Inl NotFound, Some demo_raw)
   \<and> fst (addInvoiceItem P_demo uuid_demo (Some demo_raw) ''zz'' ''Toll'' (Fin 50)) = Inl NotFound
   \<and> snd (addInvoiceItem P_demo uuid_demo (Some demo_raw) ''zz'' ''Toll'' (Fin 50)) = Some demo_raw"
  using missing_invoice_NotFound [of "''zz''" P_demo "Some demo_raw" uuid_demo "''Toll''" "Fin 50" pay_demo NotFound]
  by (simp add: load_demo demo_store_def inv_a_def inv_b_def)

lemma listInvoices_empty: "load P st = empty_store \<Longrightarrow> listInvoices P st filters = []"
  by (simp add: listInvoices_def empty_store_def Let_def split: option.splits StatusFilter.splits)

lemma getInvoice_empty: "load P st = empty_store \<Longrightarrow> getInvoice P st ident = None"
  by (simp add: getInvoice_def empty_store_def)

lemma deleteInvoice_empty:
  "load P st = empty_store \<Longrightarrow> deleteInvoice P st ident = (Inr (), save P empty_store)"
  by (simp add: deleteInvoice_def empty_store_def)

lemma createInvoice_load:
  "load P st = load P st' \<Longrightarrow> createInvoice P uuid st input = createInvoice P uuid st' input"
  by (simp add: createInvoice_def)

text \<open>
  C9. A storage key that is missing, empty or holds a text \<open>JSON.parse\<close> rejects is
  loaded as the empty store, with no error; every operation of the repository then does
  what it does on an empty store: the list is empty, no invoice is found, and an invoice
  is created as the first one.
\<close>

theorem load_falls_back_to_empty:
  "load P None = empty_store
   \<and> load P (Some []) = empty_store
   \<and> (JSON_parse P raw = None \<longrightarrow>
        load P (Some raw) = empty_store
        \<and> listInvoices P (Some raw) filters = []
        \<and> getInvoice P (Some raw) ident = None
        \<and> addInvoiceItem P uuid (Some raw) ident descr amount = (Inl NotFound, Some raw)
        \<and> recordPayment P uuid (Some raw) ident payment = (Inl NotFound, Some raw)
        \<and> deleteInvoice P (Some raw) ident = (Inr (), save P empty_store)
        \<and> createInvoice P uuid (Some raw) input = createInvoice P uuid None input)"
proof (intro conjI impI)
  show "load P None = empty_store" by (simp add: load_def)
  show "load P (Some []) = empty_store" by (simp add: load_def)
next
  assume bad: "JSON_parse P raw = None"
  then show e: "load P (Some raw) = empty_store" by (rule load_unparsable)
  show "listInvoices P (Some raw) filters = []" by (rule listInvoices_empty [OF e])
  show "getInvoice P (Some raw) ident = None" by (rule getInvoice_empty [OF e])
  show "addInvoiceItem P uuid (Some raw) ident descr amount = (Inl NotFound, Some raw)"
    by (rule addInvoiceItem_absent) (simp add: e empty_store_def)
  show "recordPayment P uuid (Some raw) ident payment = (Inl NotFound, Some raw)"
    by (rule recordPayment_absent) (simp add: e empty_store_def)
  show "deleteInvoice P (Some raw) ident = (Inr (), save P empty_store)"
    by (rule deleteInvoice_empty [OF e])
  show "createInvoice P uuid (Some raw) input = createInvoice P uuid None input"
    by (rule createInvoice_load) (simp add: e load_missing)
qed




theorem load_falls_back_to_empty_witness:
  "JSON_parse P_demo ''{invoices:[a,'' = None
   \<and> load P_demo (Some ''{invoices:[a,'') = empty_store
   \<and> listInvoices P_demo (Some ''{invoices:[a,'') None = []
   \<and> getInvoice P_demo (Some ''{invoices:[a,'') ''a'' = None
   \<and> addInvoiceItem P_demo uuid_demo (Some ''{invoices:[a,'') ''a'' ''Toll'' (Fin 50)
       = (Inl NotFound, Some ''{invoices:[a,'')
   \<and> invoice_number (fst (createInvoice P_demo uuid_demo (Some ''{invoices:[a,'') input_demo))
       = ''INV-2025-0001''"
proof -
  have bad: "JSON_parse P_demo ''{invoices:[a,'' = None"
    by code_simp
  have first: "invoice_number (fst (createInvoice P_demo uuid_demo None input_demo)) = ''INV-2025-0001''"
    by code_simp
  show ?thesis
    using load_falls_back_to_empty [where P = P_demo and raw = "''{invoices:[a,''" and filters = None
        and ident = "''a''" and uuid = uuid_demo and descr = "''Toll''" and amount = "Fin 50"
        and payment = pay_demo and input = input_demo] bad first
    by simp
qed

section \<open>Deletion\<close>

lemma filter_absent:
  "invoiceId \<notin> set (map inv_id xs) \<Longrightarrow> filter (\<lambda>i. inv_id i \<noteq> invoiceId) xs = xs"
  by (induction xs) auto

lemma filter_removes_one:
  "invoiceId \<in> set (map inv_id xs) \<Longrightarrow> distinct (map inv_id xs) \<Longrightarrow>
   \<exists>pre x post. xs = pre @ x # post \<and> inv_id x = invoiceId
      \<and> filter (\<lambda>i. inv_id i \<noteq> invoiceId) xs = pre @ post"
proof (induction xs)
  case Nil
  then show ?case by simp
next
  case (Cons y ys)
  show ?case
  proof (cases "inv_id y = invoiceId")
    case True
    with Cons.prems have "invoiceId \<notin> set (map inv_id ys)" by auto
    then have "filter (\<lambda>i. inv_id i \<noteq> invoiceId) (y # ys) = [] @ ys"
      using True by (simp add: filter_absent del: set_map)
    with True show ?thesis by blast
  next
    case False
    with Cons.prems have "invoiceId \<in> set (map inv_id ys)" and "distinct (map inv_id ys)"
      by auto
    then obtain pre x post where
      "ys = pre @ x # post" "inv_id x = invoiceId"
      "filter (\<lambda>i. inv_id i \<noteq> invoiceId) ys = pre @ post"
      using Cons.IH by blast
    with False have "y # ys = (y # pre) @ x # post \<and> inv_id x = invoiceId
        \<and> filter (\<lambda>i. inv_id i \<noteq> invoiceId) (y # ys) = (y # pre) @ post"
      by simp
    then show ?thesis by blast
  qed
qed

lemma deleteInvoice_saves:
  "deleteInvoice P st invoiceId =
     (Inr (), save P ((load P st)\<lparr> invoices := filter (\<lambda>i. inv_id i \<noteq> invoiceId) (invoices (load P st)) \<rparr>))"
  by (simp add: deleteInvoice_def Let_def)

text \<open>
  C8. \<open>deleteInvoice\<close> never fails, and it saves the loaded collection without the
  invoices of the given id. For an id that is not in the store it saves the store it
  loaded, so that a storage that reads back what is written holds the same collection
  as before. For an id that is in the store (identifiers being unique) the saved
  collection is the loaded one with exactly that invoice taken out, the others in their
  order. Deleting a second time saves the same as the first time.
\<close>

theorem deleteInvoice_idempotent:
  "fst (deleteInvoice P st invoiceId) = Inr ()
   \<and> snd (deleteInvoice P st invoiceId) =
       save P ((load P st)\<lparr> invoices := filter (\<lambda>i. inv_id i \<noteq> invoiceId) (invoices (load P st)) \<rparr>)
   \<and> (invoiceId \<notin> set (map inv_id (invoices (load P st))) \<longrightarrow>
        snd (deleteInvoice P st invoiceId) = save P (load P st)
        \<and> (load P (save P (load P st)) = load P st \<longrightarrow>
             invoices (load P (snd (deleteInvoice P st invoiceId))) = invoices (load P st)))
   \<and> (invoiceId \<in> set (map inv_id (invoices (load P st)))
        \<and> distinct (map inv_id (invoices (load P st))) \<longrightarrow>
        (\<exists>pre x post. invoices (load P st) = pre @ x # post \<and> inv_id x = invoiceId
           \<and> snd (deleteInvoice P st invoiceId) = save P ((load P st)\<lparr> invoices := pre @ post \<rparr>)))
   \<and> (load P (snd (deleteInvoice P st invoiceId)) =
          (load P st)\<lparr> invoices := filter (\<lambda>i. inv_id i \<noteq> invoiceId) (invoices (load P st)) \<rparr> \<longrightarrow>
        deleteInvoice P (snd (deleteInvoice P st invoiceId)) invoiceId = deleteInvoice P st invoiceId)"
proof (intro conjI impI)
  show "fst (deleteInvoice P st invoiceId) = Inr ()"
    by (simp add: deleteInvoice_saves)
  show "snd (deleteInvoice P st invoiceId) =
       save P ((load P st)\<lparr> invoices := filter (\<lambda>i. inv_id i \<noteq> invoiceId) (invoices (load P st)) \<rparr>)"
    by (simp add: deleteInvoice_saves)
next
  assume absent: "invoiceId \<notin> set (map inv_id (invoices (load P st)))"
  then show same: "snd (deleteInvoice P st invoiceId) = save P (load P st)"
    by (simp add: deleteInvoice_saves filter_absent del: set_map)
  assume "load P (save P (load P st)) = load P st"
  with same show "invoices (load P (snd (deleteInvoice P st invoiceId))) = invoices (load P st)"
    by simp
next
  assume "invoiceId \<in> set (map inv_id (invoices (load P st)))
        \<and> distinct (map inv_id (invoices (load P st)))"
  then obtain pre x post where
    "invoices (load P st) = pre @ x # post" "inv_id x = invoiceId"
    "filter (\<lambda>i. inv_id i \<noteq> invoiceId) (invoices (load P st)) = pre @ post"
    using filter_removes_one [of invoiceId "invoices (load P st)"] by blast
  then have "invoices (load P st) = pre @ x # post \<and> inv_id x = invoiceId
           \<and> snd (deleteInvoice P st invoiceId) = save P ((load P st)\<lparr> invoices := pre @ post \<rparr>)"
    by (simp add: deleteInvoice_saves)
  then show "\<exists>pre x post. invoices (load P st) = pre @ x # post \<and> inv_id x = invoiceId
           \<and> snd (deleteInvoice P st invoiceId) = save P ((load P st)\<lparr> invoices := pre @ post \<rparr>)"
    by blast
next
  let ?s' = "(load P st)\<lparr> invoices := filter (\<lambda>i. inv_id i \<noteq> invoiceId) (invoices (load P st)) \<rparr>"
  assume reads: "load P (snd (deleteInvoice P st invoiceId)) = ?s'"
  have "deleteInvoice P (snd (deleteInvoice P st invoiceId)) invoiceId =
        (Inr (), save P ((load P (snd (deleteInvoice P st invoiceId)))\<lparr> invoices :=
           filter (\<lambda>i. inv_id i \<noteq> invoiceId) (invoices (load P (snd (deleteInvoice P st invoiceId)))) \<rparr>))"
    by (rule deleteInvoice_saves)
  also have "\<dots> = (Inr (), save P (?s'\<lparr> invoices := filter (\<lambda>i. inv_id i \<noteq> invoiceId) (invoices ?s') \<rparr>))"
    by (simp only: reads)
  also have "\<dots> = deleteInvoice P st invoiceId"
    by (simp add: deleteInvoice_saves)
  finally show "deleteInvoice P (snd (deleteInvoice P st invoiceId)) invoiceId = deleteInvoice P st invoiceId" .
qed

theorem deleteInvoice_idempotent_witness:
  "''zz'' \<notin> set (map inv_id (invoices (load P_demo (Some demo_raw))))
   \<and> load P_demo (save P_demo (load P_demo (Some demo_raw))) = load P_demo (Some demo_raw)
   \<and> fst (deleteInvoice P_demo (Some demo_raw) ''zz'') = Inr ()
   \<and> snd (deleteInvoice P_demo (Some demo_raw) ''zz'') = save P_demo (load P_demo (Some demo_raw))
   \<and> invoices (load P_demo (snd (deleteInvoice P_demo (Some demo_raw) ''zz'')))
       = invoices (load P_demo (Some demo_raw))
   \<and> invoices (load P_demo (Some demo_raw)) = [inv_a, inv_b]
   \<and> ''a'' \<in> set (map inv_id (invoices (load P_demo (Some demo_raw))))
   \<and> distinct (map inv_id (invoices (load P_demo (Some demo_raw))))
   \<and> snd (deleteInvoice P_demo (Some demo_raw) ''a'') = save P_demo \<lparr> invoices = [inv_b] \<rparr>"
proof -
  note absent_case = deleteInvoice_idempotent [of P_demo "Some demo_raw" "''zz''"]
  have absent: "''zz'' \<notin> set (map inv_id (invoices (load P_demo (Some demo_raw))))"
    by code_simp
  have reads: "load P_demo (save P_demo (load P_demo (Some demo_raw))) = load P_demo (Some demo_raw)"
    by code_simp
  have no_error: "fst (deleteInvoice P_demo (Some demo_raw) ''zz'') = Inr ()"
    using absent_case by blast
  have resaved: "snd (deleteInvoice P_demo (Some demo_raw) ''zz'') = save P_demo (load P_demo (Some demo_raw))"
    using absent_case absent by blast
  have unchanged: "invoices (load P_demo (snd (deleteInvoice P_demo (Some demo_raw) ''zz'')))
       = invoices (load P_demo (Some demo_raw))"
    using absent_case absent reads by blast
  have loaded: "invoices (load P_demo (Some demo_raw)) = [inv_a, inv_b]"
    by code_simp
  have inside: "''a'' \<in> set (map inv_id (invoices (load P_demo (Some demo_raw))))"
    by code_simp
  have uniq: "distinct (map inv_id (invoices (load P_demo (Some demo_raw))))"
    by code_simp
  have gone: "snd (deleteInvoice P_demo (Some demo_raw) ''a'') = save P_demo \<lparr> invoices = [inv_b] \<rparr>"
    by code_simp
  show ?thesis
    using absent reads no_error resaved unchanged loaded inside uniq gone by blast
qed

section \<open>Status of the invoices handed back\<close>

lemma computeTotals_stable:
  "computeTotals (i\<lparr> total_amount := total (computeTotals i) \<rparr>) = computeTotals i"
  by (simp add: computeTotals_def Let_def)

lemma computeTotals_status: "computeTotals (i\<lparr> status := s \<rparr>) = computeTotals i"
  by (simp add: computeTotals_def Let_def)

lemma deriveStatus_unfold:
  "deriveStatus P i =
     (if jsge (paid (computeTotals i)) (total (computeTotals i)) \<and> jsgt (total (computeTotals i)) (Fin 0)
      then Paid
      else if jslt (paid (computeTotals i)) (total (computeTotals i)) \<and> due_before_today P i
      then Overdue else Unpaid)"
  by (simp add: deriveStatus_def Let_def)

lemma deriveStatus_status: "deriveStatus P (i\<lparr> status := s \<rparr>) = deriveStatus P i"
  by (simp add: deriveStatus_unfold computeTotals_status due_before_today_def)

lemma deriveStatus_stable:
  "deriveStatus P (i\<lparr> total_amount := total (computeTotals i) \<rparr>) = deriveStatus P i"
  by (simp add: deriveStatus_unfold computeTotals_stable due_before_today_def)

lemma refresh_status: "status (refresh P i) = Some (deriveStatus P (refresh P i))"
proof -
  have "refresh P i = (i\<lparr> total_amount := total (computeTotals i) \<rparr>)\<lparr> status := Some (deriveStatus P i) \<rparr>"
    by (simp add: refresh_def)
  then have "deriveStatus P (refresh P i) = deriveStatus P i"
    by (simp add: deriveStatus_status deriveStatus_stable)
  then show ?thesis
    by (simp add: refresh_def)
qed

lemma listInvoices_refreshed: "r \<in> set (listInvoices P st filters) \<Longrightarrow> \<exists>i. r = refresh P i"
  by (auto simp: listInvoices_def Let_def)

lemma getInvoice_refreshed: "getInvoice P st ident = Some r \<Longrightarrow> \<exists>i. r = refresh P i"
  by (auto simp: getInvoice_def split: option.splits)

lemma addInvoiceItem_status:
  "fst (addInvoiceItem P uuid st ident descr amount) = Inr r \<Longrightarrow> status r = Some (deriveStatus P r)"
  by (auto simp: addInvoiceItem_def Let_def deriveStatus_status split: option.splits)

lemma recordPayment_status:
  assumes "fst (recordPayment P uuid st ident payment) = Inr r"
      and "jsgt (total (computeTotals r)) (Fin 0)"
  shows "status r = Some (deriveStatus P r)"
proof -
  from assms(1) obtain i1 where
    r: "r = (i1\<lparr> total_amount := total (computeTotals i1) \<rparr>)
             \<lparr> status := Some (if jsge (paid (computeTotals i1)) (total (computeTotals i1)) then Paid
                               else deriveStatus P (i1\<lparr> total_amount := total (computeTotals i1) \<rparr>)) \<rparr>"
    by (auto simp: recordPayment_def Let_def split: option.splits)
  have t: "computeTotals r = computeTotals i1"
    by (simp add: r computeTotals_status computeTotals_stable)
  have d: "deriveStatus P r = deriveStatus P i1"
    by (simp add: r deriveStatus_status deriveStatus_stable)
  from assms(2) t have pos: "jsgt (total (computeTotals i1)) (Fin 0)"
    by simp
  have "status r = Some (if jsge (paid (computeTotals i1)) (total (computeTotals i1)) then Paid
                         else deriveStatus P i1)"
    by (simp add: r deriveStatus_stable)
  also have "\<dots> = Some (deriveStatus P i1)"
    using pos by (simp add: deriveStatus_unfold)
  finally show ?thesis
    by (simp add: d)
qed

lemma createInvoice_status: "status (fst (createInvoice P uuid st input)) = Some Unpaid"
  by (simp add: createInvoice_def Let_def)

text \<open>
  C2. The claim is that every invoice a repository operation hands back carries the
  status of the specification's rule (\<open>spec_status\<close>). On 15 February 2025, with both
  invoices of the sample store due on 31 January:
  \<^item> \<open>getInvoice\<close> hands back the invoice without items and payments as \<open>Unpaid\<close>; the
    rule makes it \<open>Overdue\<close>, \<open>deriveStatus\<close> asks for \<open>paid < total\<close> as well;
  \<^item> \<open>createInvoice\<close> hands back an invoice of 250 due on 31 January as \<open>Unpaid\<close>;
  \<^item> \<open>recordPayment\<close> of 400 against the invoice without items hands it back as
    \<open>Paid\<close> with a total of 0.
\<close>

theorem handed_back_status_differs:
  "getInvoice P_demo (Some demo_raw) ''b'' = Some (refresh P_demo inv_b)
   \<and> status (refresh P_demo inv_b) = Some Unpaid
   \<and> spec_status P_demo (refresh P_demo inv_b) = Overdue
   \<and> status (fst (createInvoice P_demo uuid_demo (Some demo_raw) input_late)) = Some Unpaid
   \<and> spec_status P_demo (fst (createInvoice P_demo uuid_demo (Some demo_raw) input_late)) = Overdue
   \<and> fst (recordPayment P_demo uuid_demo (Some demo_raw) ''b'' pay_demo) = Inr inv_b_paid
   \<and> status inv_b_paid = Some Paid
   \<and> total (computeTotals inv_b_paid) = Fin 0
   \<and> spec_status P_demo inv_b_paid \<noteq> Paid"
  by code_simp

text \<open>
  C2, amended. An invoice handed back by \<open>listInvoices\<close>, \<open>getInvoice\<close> or
  \<open>addInvoiceItem\<close>, and by \<open>recordPayment\<close> when its total is greater than 0, carries
  the status \<open>deriveStatus\<close> gives it: \<open>Paid\<close> iff \<open>paid >= total\<close> and \<open>total > 0\<close>;
  else \<open>Overdue\<close> iff \<open>paid < total\<close> and the due date is before the current day; else
  \<open>Unpaid\<close>. With a total of 0 that status is never \<open>Paid\<close>. \<open>createInvoice\<close> hands
  back \<open>Unpaid\<close>.
\<close>

theorem handed_back_status:
  "(\<forall>r \<in> set (listInvoices P st filters). status r = Some (deriveStatus P r))
   \<and> (getInvoice P st ident = Some r \<longrightarrow> status r = Some (deriveStatus P r))
   \<and> (fst (addInvoiceItem P uuid st ident descr amount) = Inr r \<longrightarrow> status r = Some (deriveStatus P r))
   \<and> (fst (recordPayment P uuid st ident payment) = Inr r \<and> jsgt (total (computeTotals r)) (Fin 0)
        \<longrightarrow> status r = Some (deriveStatus P r))
   \<and> status (fst (createInvoice P uuid st input)) = Some Unpaid
   \<and> (deriveStatus P r = Paid \<longleftrightarrow>
        jsge (paid (computeTotals r)) (total (computeTotals r)) \<and> jsgt (total (computeTotals r)) (Fin 0))
   \<and> (deriveStatus P r = Overdue \<longleftrightarrow>
        \<not> (jsge (paid (computeTotals r)) (total (computeTotals r)) \<and> jsgt (total (computeTotals r)) (Fin 0))
        \<and> jslt (paid (computeTotals r)) (total (computeTotals r)) \<and> due_before_today P r)
   \<and> (total (computeTotals r) = Fin 0 \<longrightarrow> deriveStatus P r \<noteq> Paid)"
proof (intro conjI ballI impI)
  fix x assume "x \<in> set (listInvoices P st filters)"
  then show "status x = Some (deriveStatus P x)"
    using listInvoices_refreshed refresh_status by blast
next
  assume "getInvoice P st ident = Some r"
  then show "status r = Some (deriveStatus P r)"
    using getInvoice_refreshed refresh_status by blast
next
  assume "fst (addInvoiceItem P uuid st ident descr amount) = Inr r"
  then show "status r = Some (deriveStatus P r)"
    by (rule addInvoiceItem_status)
next
  assume "fst (recordPayment P uuid st ident payment) = Inr r \<and> jsgt (total (computeTotals r)) (Fin 0)"
  then show "status r = Some (deriveStatus P r)"
    using recordPayment_status by blast
next
  show "status (fst (createInvoice P uuid st input)) = Some Unpaid"
    by (rule createInvoice_status)
next
  show "deriveStatus P r = Paid \<longleftrightarrow>
        jsge (paid (computeTotals r)) (total (computeTotals r)) \<and> jsgt (total (computeTotals r)) (Fin 0)"
    by (simp add: deriveStatus_unfold)
next
  show "deriveStatus P r = Overdue \<longleftrightarrow>
        \<not> (jsge (paid (computeTotals r)) (total (computeTotals r)) \<and> jsgt (total (computeTotals r)) (Fin 0))
        \<and> jslt (paid (computeTotals r)) (total (computeTotals r)) \<and> due_before_today P r"
    by (simp add: deriveStatus_unfold)
next
  assume "total (computeTotals r) = Fin 0"
  then show "deriveStatus P r \<noteq> Paid"
    by (simp add: deriveStatus_unfold jsgt_def)
qed

theorem handed_back_status_witness:
  "map status (listInvoices P_demo (Some demo_raw) None) = [Some Overdue, Some Unpaid]
   \<and> getInvoice P_demo (Some demo_raw) ''b'' = Some (refresh P_demo inv_b)
   \<and> status (refresh P_demo inv_b) = Some (deriveStatus P_demo (refresh P_demo inv_b))
   \<and> total (computeTotals (refresh P_demo inv_b)) = Fin 0
   \<and> deriveStatus P_demo (refresh P_demo inv_b) = Unpaid"
proof -
  have listed: "map status (listInvoices P_demo (Some demo_raw) None) = [Some Overdue, Some Unpaid]"
    by code_simp
  have got: "getInvoice P_demo (Some demo_raw) ''b'' = Some (refresh P_demo inv_b)"
    by code_simp
  have zero: "total (computeTotals (refresh P_demo inv_b)) = Fin 0"
    by code_simp
  have derived: "deriveStatus P_demo (refresh P_demo inv_b) = Unpaid"
    by code_simp
  have "status (refresh P_demo inv_b) = Some (deriveStatus P_demo (refresh P_demo inv_b))"
    using handed_back_status [where P = P_demo and st = "Some demo_raw" and ident = "''b''"
        and r = "refresh P_demo inv_b"] got
    by blast
  with listed got zero derived show ?thesis
    by blast
qed

section \<open>The status filter\<close>

text \<open>
  C4. The claim is that the status filter of \<open>listInvoices\<close> keeps the invoices whose
  derived status is the wanted one, whatever status is stored. The filter tests
  \<open>i.status ?? deriveStatus(i)\<close>, the stored status when there is one. \<open>inv_a\<close> was
  stored as \<open>Unpaid\<close> and is overdue on 15 February 2025: the filter \<open>Overdue\<close> leaves
  it out, and the filter \<open>Unpaid\<close> hands it back, with the status \<open>Overdue\<close>.
\<close>

theorem listInvoices_filters_stored_status:
  "status inv_a = Some Unpaid
   \<and> deriveStatus P_demo inv_a = Overdue
   \<and> listInvoices P_demo (Some demo_raw) (only_status Overdue) = []
   \<and> map (\<lambda>i. (inv_id i, status i)) (listInvoices P_demo (Some demo_raw) (only_status Unpaid))
       = [(''a'', Some Overdue), (''b'', Some Unpaid)]"
  by code_simp

section \<open>Invoice numbers\<close>

lemma of_char_digit_char: "d < 10 \<Longrightarrow> of_char (digit_char d) = (48 + d :: nat)"
  by (simp add: digit_char_def)

lemma digit_char_not_dash: "d < 10 \<Longrightarrow> digit_char d \<noteq> CHR ''-''"
proof
  assume "d < 10" and "digit_char d = CHR ''-''"
  then have "(48 + d :: nat) = of_char (CHR ''-'')"
    using of_char_digit_char [of d] by simp
  then show False by simp
qed

lemma digit_val_digit_char: "d < 10 \<Longrightarrow> digit_val (digit_char d) = d"
  by (simp add: digit_val_def of_char_digit_char)

lemma show_nat_no_dash: "CHR ''-'' \<notin> set (show_nat n)"
proof (induction n rule: show_nat.induct)
  case (1 n)
  show ?case
  proof (cases "n < 10")
    case True
    then show ?thesis
      using digit_char_not_dash [of n] by (auto simp: show_nat.simps [of n])
  next
    case False
    then have "CHR ''-'' \<notin> set (show_nat (n div 10))" by (rule "1.IH")
    moreover have "digit_char (n mod 10) \<noteq> CHR ''-''"
      by (rule digit_char_not_dash) simp
    ultimately show ?thesis
      using False by (auto simp: show_nat.simps [of n])
  qed
qed

lemma digits_val_snoc: "digits_val (ds @ [c]) = 10 * digits_val ds + digit_val c"
  by (simp add: digits_val_def)

lemma digits_val_show_nat: "digits_val (show_nat n) = n"
proof (induction n rule: show_nat.induct)
  case (1 n)
  show ?case
  proof (cases "n < 10")
    case True
    then show ?thesis
      by (simp add: show_nat.simps [of n] digits_val_def digit_val_digit_char)
  next
    case False
    then have "digits_val (show_nat (n div 10)) = n div 10" by (rule "1.IH")
    then show ?thesis
      using False by (simp add: show_nat.simps [of n] digits_val_snoc digit_val_digit_char)
  qed
qed

lemma show_nat_inject: "show_nat n = show_nat m \<Longrightarrow> n = m"
  by (metis digits_val_show_nat)

lemma length_show_nat: "n < 10 ^ k \<Longrightarrow> 0 < k \<Longrightarrow> length (show_nat n) \<le> k"
proof (induction n arbitrary: k rule: show_nat.induct)
  case (1 n)
  show ?case
  proof (cases "n < 10")
    case True
    with "1.prems" show ?thesis by (simp add: show_nat.simps [of n])
  next
    case False
    with "1.prems" obtain j where k: "k = Suc j"
      by (cases k) auto
    from False "1.prems" k have "0 < j"
      by (cases j) auto
    moreover from "1.prems" k have "n div 10 < 10 ^ j"
      by (simp add: less_mult_imp_div_less mult.commute)
    ultimately have "length (show_nat (n div 10)) \<le> j"
      using "1.IH" [OF False] by blast
    with False k show ?thesis by (simp add: show_nat.simps [of n])
  qed
qed

lemma show_nat_nonempty: "show_nat n \<noteq> []"
  by (subst show_nat.simps) simp

lemma dash_free_prefix:
  "CHR ''-'' \<notin> set a \<Longrightarrow> CHR ''-'' \<notin> set b \<Longrightarrow> a @ CHR ''-'' # r = b @ CHR ''-'' # s \<Longrightarrow> a = b"
proof (induction a arbitrary: b)
  case Nil
  then show ?case by (cases b) auto
next
  case (Cons x a)
  then show ?case by (cases b) auto
qed

lemma startsWith_append: "startsWith n p \<longleftrightarrow> (\<exists>s. n = p @ s)"
proof
  assume "startsWith n p"
  then have "n = p @ drop (length p) n"
    by (metis startsWith_def append_take_drop_id)
  then show "\<exists>s. n = p @ s" ..
next
  assume "\<exists>s. n = p @ s"
  then show "startsWith n p" by (auto simp: startsWith_def)
qed

lemma other_year_prefix:
  assumes "y \<noteq> year"
  shows "\<not> startsWith (invoice_prefix y @ r) (invoice_prefix year)"
proof
  assume "startsWith (invoice_prefix y @ r) (invoice_prefix year)"
  then obtain s where "invoice_prefix y @ r = invoice_prefix year @ s"
    by (auto simp: startsWith_append)
  then have "show_nat y @ CHR ''-'' # r = show_nat year @ CHR ''-'' # s"
    by (simp add: invoice_prefix_def)
  then have "show_nat y = show_nat year"
    using dash_free_prefix show_nat_no_dash by blast
  with assms show False
    by (auto dest: show_nat_inject)
qed

lemma nums_set:
  "set (map the (filter (\<lambda>n. n \<noteq> None)
         (map (\<lambda>n. parseInt (drop (length (invoice_prefix year)) n))
           (filter (\<lambda>n. startsWith n (invoice_prefix year)) (map invoice_number existing)))))
   = current_suffixes year existing"
  by (force simp: current_suffixes_def)

lemma Math_max_of_Max: "ns \<noteq> [] \<Longrightarrow> Math_max_of ns = Max (set ns)"
proof (cases ns)
  case Nil
  assume "ns \<noteq> []"
  with Nil show ?thesis by simp
next
  case (Cons n ms)
  have "Math_max_of (n # ms) = fold max ms n" by simp
  also have "\<dots> = Max (set (n # ms))" by (rule Max.set_eq_fold [symmetric])
  finally show ?thesis by (simp only: Cons)
qed

lemma nextInvoiceNumber_spec:
  "nextInvoiceNumber P existing =
     invoice_prefix (getFullYear P) @ padStart 4 (CHR ''0'')
       (String_of (if current_suffixes (getFullYear P) existing = {} then 1
                   else Max (current_suffixes (getFullYear P) existing) + 1))"
proof -
  define nums where "nums = map the (filter (\<lambda>n. n \<noteq> None)
         (map (\<lambda>n. parseInt (drop (length (invoice_prefix (getFullYear P))) n))
           (filter (\<lambda>n. startsWith n (invoice_prefix (getFullYear P))) (map invoice_number existing))))"
  have s: "set nums = current_suffixes (getFullYear P) existing"
    unfolding nums_def by (rule nums_set)
  have eq: "(if nums \<noteq> [] then Math_max_of nums else 0) + 1
        = (if current_suffixes (getFullYear P) existing = {} then 1
           else Max (current_suffixes (getFullYear P) existing) + 1)"
  proof (cases "nums = []")
    case True
    with s show ?thesis by simp
  next
    case False
    then have "set nums \<noteq> {}" by simp
    with False s show ?thesis
      by (simp add: Math_max_of_Max)
  qed
  have "nextInvoiceNumber P existing =
      invoice_prefix (getFullYear P) @ padStart 4 (CHR ''0'')
        (String_of ((if nums \<noteq> [] then Math_max_of nums else 0) + 1))"
    unfolding nextInvoiceNumber_def Let_def nums_def ..
  then show ?thesis
    by (simp only: eq)
qed

lemma current_suffixes_numbers:
  "current_suffixes year zs =
     {n. \<exists>num \<in> invoice_number ` set zs. startsWith num (invoice_prefix year)
           \<and> parseInt (drop (length (invoice_prefix year)) num) = Some n}"
  by (auto simp: current_suffixes_def)

lemma current_suffixes_filter:
  "current_suffixes year (filter (\<lambda>i. startsWith (invoice_number i) (invoice_prefix year)) existing)
   = current_suffixes year existing"
  by (auto simp: current_suffixes_def)

lemma current_suffixes_other_years:
  "\<forall>i \<in> set old. \<exists>y r. y \<noteq> year \<and> invoice_number i = invoice_prefix y @ r \<Longrightarrow>
   current_suffixes year (old @ existing) = current_suffixes year existing
   \<and> current_suffixes year (existing @ old) = current_suffixes year existing
   \<and> current_suffixes year old = {}"
proof -
  assume a: "\<forall>i \<in> set old. \<exists>y r. y \<noteq> year \<and> invoice_number i = invoice_prefix y @ r"
  have "\<not> startsWith (invoice_number i) (invoice_prefix year)" if "i \<in> set old" for i
    using a that other_year_prefix by metis
  then show ?thesis
    by (auto simp: current_suffixes_def)
qed

lemma length_padStart: "length (padStart n c s) = max n (length s)"
  by (simp add: padStart_def)

lemma length_String_of: "0 \<le> n \<Longrightarrow> n < 10000 \<Longrightarrow> length (String_of n) \<le> 4"
proof -
  assume "0 \<le> n" "n < 10000"
  then have "nat n < 10 ^ 4" by simp
  then have "length (show_nat (nat n)) \<le> 4"
    by (rule length_show_nat) simp
  with \<open>0 \<le> n\<close> show ?thesis
    by (simp add: String_of_def)
qed

lemma pad_one: "padStart 4 (CHR ''0'') (String_of 1) = ''0001''"
  by code_simp

lemma pad_four: "padStart 4 (CHR ''0'') (String_of 4) = ''0004''"
  by code_simp

lemma prefix_2025: "invoice_prefix 2025 = ''INV-2025-''"
  by code_simp

lemma suffixes_example:
  assumes "set (map invoice_number existing) = {''INV-2025-0001'', ''INV-2025-0003''}"
  shows "current_suffixes 2025 existing = {1, 3}"
proof -
  have a: "startsWith ''INV-2025-0001'' (invoice_prefix 2025)" by code_simp
  have b: "startsWith ''INV-2025-0003'' (invoice_prefix 2025)" by code_simp
  have c: "parseInt (drop (length (invoice_prefix 2025)) ''INV-2025-0001'') = Some 1" by code_simp
  have d: "parseInt (drop (length (invoice_prefix 2025)) ''INV-2025-0003'') = Some 3" by code_simp
  from assms have "invoice_number ` set existing = {''INV-2025-0001'', ''INV-2025-0003''}"
    by simp
  then have "current_suffixes 2025 existing =
     {n. \<exists>num \<in> {''INV-2025-0001'', ''INV-2025-0003''}. startsWith num (invoice_prefix 2025)
           \<and> parseInt (drop (length (invoice_prefix 2025)) num) = Some n}"
    by (simp only: current_suffixes_numbers)
  also have "\<dots> = {1, 3}"
    using a b c d by auto
  finally show ?thesis .
qed

text \<open>
  C5. For every collection of invoices the allocator looks only at the numbers that
  start with \<open>INV-<year>-\<close> for the current year, reads the integer after the prefix,
  and returns the prefix followed by the successor of the largest such integer (1 when
  there is none), padded with zeros to four characters: exactly four when the successor
  is at most 9999. With \<open>INV-2025-0001\<close> and \<open>INV-2025-0003\<close> in 2025 the result is
  \<open>INV-2025-0004\<close>. Numbers of other years change nothing, wherever they stand in the
  collection; with them alone the result is \<open>INV-<year>-0001\<close>.
\<close>

theorem nextInvoiceNumber_allocates:
  "nextInvoiceNumber P existing =
     invoice_prefix (getFullYear P) @ padStart 4 (CHR ''0'')
       (String_of (if current_suffixes (getFullYear P) existing = {} then 1
                   else Max (current_suffixes (getFullYear P) existing) + 1))
   \<and> (current_suffixes (getFullYear P) existing = {} \<longrightarrow>
        nextInvoiceNumber P existing = invoice_prefix (getFullYear P) @ ''0001'')
   \<and> (current_suffixes (getFullYear P) existing \<noteq> {}
        \<and> 0 \<le> Max (current_suffixes (getFullYear P) existing)
        \<and> Max (current_suffixes (getFullYear P) existing) < 9999 \<longrightarrow>
        length (nextInvoiceNumber P existing) = length (invoice_prefix (getFullYear P)) + 4)
   \<and> (getFullYear P = 2025
        \<and> set (map invoice_number existing) = {''INV-2025-0001'', ''INV-2025-0003''} \<longrightarrow>
        nextInvoiceNumber P existing = ''INV-2025-0004'')
   \<and> ((\<forall>i \<in> set old. \<exists>y r. y \<noteq> getFullYear P \<and> invoice_number i = invoice_prefix y @ r) \<longrightarrow>
        nextInvoiceNumber P (old @ existing) = nextInvoiceNumber P existing
        \<and> nextInvoiceNumber P (existing @ old) = nextInvoiceNumber P existing
        \<and> nextInvoiceNumber P old = invoice_prefix (getFullYear P) @ ''0001'')
   \<and> nextInvoiceNumber P existing =
       nextInvoiceNumber P (filter (\<lambda>i. startsWith (invoice_number i) (invoice_prefix (getFullYear P))) existing)"
proof (intro conjI impI)
  show "nextInvoiceNumber P existing =
     invoice_prefix (getFullYear P) @ padStart 4 (CHR ''0'')
       (String_of (if current_suffixes (getFullYear P) existing = {} then 1
                   else Max (current_suffixes (getFullYear P) existing) + 1))"
    by (rule nextInvoiceNumber_spec)
next
  assume "current_suffixes (getFullYear P) existing = {}"
  then show "nextInvoiceNumber P existing = invoice_prefix (getFullYear P) @ ''0001''"
    by (simp add: nextInvoiceNumber_spec pad_one)
next
  let ?m = "Max (current_suffixes (getFullYear P) existing)"
  assume a: "current_suffixes (getFullYear P) existing \<noteq> {} \<and> 0 \<le> ?m \<and> ?m < 9999"
  then have "length (String_of (?m + 1)) \<le> 4"
    by (intro length_String_of) simp_all
  then have "length (padStart 4 (CHR ''0'') (String_of (?m + 1))) = 4"
    by (simp add: length_padStart)
  with a show "length (nextInvoiceNumber P existing) = length (invoice_prefix (getFullYear P)) + 4"
    by (simp add: nextInvoiceNumber_spec)
next
  assume a: "getFullYear P = 2025
        \<and> set (map invoice_number existing) = {''INV-2025-0001'', ''INV-2025-0003''}"
  then have "current_suffixes 2025 existing = {1, 3}"
    by (intro suffixes_example) simp
  with a show "nextInvoiceNumber P existing = ''INV-2025-0004''"
    by (simp add: nextInvoiceNumber_spec pad_four prefix_2025)
next
  assume a: "\<forall>i \<in> set old. \<exists>y r. y \<noteq> getFullYear P \<and> invoice_number i = invoice_prefix y @ r"
  note s = current_suffixes_other_years [OF a]
  from s show "nextInvoiceNumber P (old @ existing) = nextInvoiceNumber P existing"
    by (simp add: nextInvoiceNumber_spec)
  from s show "nextInvoiceNumber P (existing @ old) = nextInvoiceNumber P existing"
    by (simp add: nextInvoiceNumber_spec)
  from s show "nextInvoiceNumber P old = invoice_prefix (getFullYear P) @ ''0001''"
    by (simp add: nextInvoiceNumber_spec pad_one)
next
  show "nextInvoiceNumber P existing =
       nextInvoiceNumber P (filter (\<lambda>i. startsWith (invoice_number i) (invoice_prefix (getFullYear P))) existing)"
    by (simp add: nextInvoiceNumber_spec current_suffixes_filter)
qed

theorem nextInvoiceNumber_allocates_witness:
  "getFullYear P_demo = 2025
   \<and> set (map invoice_number [inv_a, inv_b]) = {''INV-2025-0001'', ''INV-2025-0003''}
   \<and> nextInvoiceNumber P_demo [inv_a, inv_b] = ''INV-2025-0004''
   \<and> current_suffixes (getFullYear P_demo) [inv_a, inv_b] = {1, 3}
   \<and> length (nextInvoiceNumber P_demo [inv_a, inv_b]) = length (invoice_prefix (getFullYear P_demo)) + 4
   \<and> (2024::nat) \<noteq> getFullYear P_demo
   \<and> invoice_number inv_2024 = invoice_prefix 2024 @ ''0042''
   \<and> nextInvoiceNumber P_demo ([inv_2024] @ [inv_a, inv_b]) = ''INV-2025-0004''
   \<and> nextInvoiceNumber P_demo [inv_2024] = invoice_prefix (getFullYear P_demo) @ ''0001''"
proof -
  note T = nextInvoiceNumber_allocates [of P_demo "[inv_a, inv_b]" "[inv_2024]"]
  have year: "getFullYear P_demo = 2025"
    by code_simp
  have numbers: "set (map invoice_number [inv_a, inv_b]) = {''INV-2025-0001'', ''INV-2025-0003''}"
    by (simp add: inv_a_def inv_b_def)
  have allocated: "nextInvoiceNumber P_demo [inv_a, inv_b] = ''INV-2025-0004''"
    using T year numbers by blast
  have suffixes: "current_suffixes (getFullYear P_demo) [inv_a, inv_b] = {1, 3}"
    using suffixes_example [OF numbers] year by simp
  then have "current_suffixes (getFullYear P_demo) [inv_a, inv_b] \<noteq> {}
        \<and> 0 \<le> Max (current_suffixes (getFullYear P_demo) [inv_a, inv_b])
        \<and> Max (current_suffixes (getFullYear P_demo) [inv_a, inv_b]) < 9999"
    by simp
  with T have four: "length (nextInvoiceNumber P_demo [inv_a, inv_b]) = length (invoice_prefix (getFullYear P_demo)) + 4"
    by blast
  have other: "(2024::nat) \<noteq> getFullYear P_demo"
    by (simp add: year)
  have old_number: "invoice_number inv_2024 = invoice_prefix 2024 @ ''0042''"
    by code_simp
  from other old_number
  have "\<exists>y r. y \<noteq> getFullYear P_demo \<and> invoice_number inv_2024 = invoice_prefix y @ r"
    by blast
  then have "\<forall>i \<in> set [inv_2024]. \<exists>y r. y \<noteq> getFullYear P_demo \<and> invoice_number i = invoice_prefix y @ r"
    by simp
  with T have "nextInvoiceNumber P_demo ([inv_2024] @ [inv_a, inv_b]) = nextInvoiceNumber P_demo [inv_a, inv_b]
      \<and> nextInvoiceNumber P_demo [inv_2024] = invoice_prefix (getFullYear P_demo) @ ''0001''"
    by blast
  with year numbers allocated suffixes four other old_number show ?thesis
    by simp
qed

end
